theory Spec2Isabelle
  imports Main "HOL-Library.Sublist"
begin

text \<open>
  A model of \<^verbatim>\<open>slurmspawner.py\<close>: the spawner that submits one batch job with \<^verbatim>\<open>sbatch\<close>,
  waits for it with \<^verbatim>\<open>squeue\<close>, resolves its node with \<^verbatim>\<open>host\<close> and cancels it with
  \<^verbatim>\<open>scancel\<close>. Every method becomes a function from the state of the spawner to its result
  and the new state; the state records the external processes that were started, in order.
\<close>

section \<open>Python string operations used by the spawner\<close>

text \<open>
  Strings are lists of \<^typ>\<open>char\<close>, read as code points below 256. In the methods as they
  are modelled first, the scheduler hands over the text that its output decodes to, so
  \<^verbatim>\<open>.decode()\<close> is the identity there. The exceptions that starting a process and decoding
  its output can raise are added for \<^verbatim>\<open>run_command\<close>, \<^verbatim>\<open>poll\<close> and \<^verbatim>\<open>stop\<close> in a section of
  their own.
\<close>

text \<open>\<^verbatim>\<open>bytes.strip()\<close> removes the ASCII white space \<^verbatim>\<open>b' \t\n\r\x0b\f'\<close>.\<close>

definition bytes_isspace :: "char \<Rightarrow> bool" where
  "bytes_isspace c = (c = CHR '' '' \<or> c = CHR 0x09 \<or> c = CHR 0x0A \<or> c = CHR 0x0B
     \<or> c = CHR 0x0C \<or> c = CHR 0x0D)"

text \<open>\<^verbatim>\<open>str.strip()\<close> removes every character with \<^verbatim>\<open>str.isspace()\<close>; below 256 these are
  the ASCII white space, the separators 0x1C to 0x1F, NEL (0x85) and the no-break space (0xA0).\<close>

definition str_isspace :: "char \<Rightarrow> bool" where
  "str_isspace c = (bytes_isspace c \<or> c = CHR 0x1C \<or> c = CHR 0x1D \<or> c = CHR 0x1E
     \<or> c = CHR 0x1F \<or> c = CHR 0x85 \<or> c = CHR 0xA0)"

definition strip :: "(char \<Rightarrow> bool) \<Rightarrow> string \<Rightarrow> string" where
  "strip sp s = rev (dropWhile sp (rev (dropWhile sp s)))"

text \<open>\<^verbatim>\<open>s.split(c)\<close> for a one-character separator: every occurrence of the separator
  ends a field, empty fields are kept, and the result is never empty.\<close>

fun split_char :: "char \<Rightarrow> string \<Rightarrow> string list" where
  "split_char c [] = [[]]"
| "split_char c (x # xs) =
     (if x = c then [] # split_char c xs
      else (case split_char c xs of
              [] \<Rightarrow> [[x]]
            | t # ts \<Rightarrow> (x # t) # ts))"

text \<open>\<^verbatim>\<open>sep.join(xs)\<close>.\<close>

fun py_join :: "string \<Rightarrow> string list \<Rightarrow> string" where
  "py_join sep [] = []"
| "py_join sep [x] = x"
| "py_join sep (x # y # ys) = x @ sep @ py_join sep (y # ys)"

text \<open>\<^verbatim>\<open>needle in hay\<close> on strings is the test for a contiguous substring.\<close>

definition py_in :: "string \<Rightarrow> string \<Rightarrow> bool" where
  "py_in needle hay = sublist needle hay"

section \<open>The spawner object and the external commands\<close>

datatype error = KeyError | IndexError | ValueError | TypeError | UnicodeDecodeError

text \<open>One external process: the shell command line and what is written to its standard input.\<close>

datatype invocation = Invocation (command: string) (stdin: string)

text \<open>
  The cluster is a function from the invocations made so far and the present one to the
  text the process writes to its standard output. A process that the operating system
  refuses to spawn is outside the model.
\<close>

type_synonym shell = "invocation list \<Rightarrow> invocation \<Rightarrow> string"

datatype log_entry = Info string | Warn string

text \<open>
  The fields of \<^verbatim>\<open>SlurmSpawner\<close> that the methods read or write, with the framework's
  \<^verbatim>\<open>self.user.name\<close>, \<^verbatim>\<open>self.cmd\<close>, \<^verbatim>\<open>self.get_args()\<close>, \<^verbatim>\<open>self.env\<close> and
  \<^verbatim>\<open>self.user.server\<close>. \<open>logged\<close> collects the records written through \<^verbatim>\<open>self.log\<close> at levels
  info and warn (debug records are left out); \<open>calls\<close> is the trace of external processes
  started so far. \<^verbatim>\<open>slurm_job_id\<close> is \<open>None\<close> for Python's \<^verbatim>\<open>None\<close>.
\<close>

record spawner =
  user_name :: string
  cmd :: "string list"
  args :: "string list"
  env :: "string \<rightharpoonup> string"
  slurm_job_id :: "string option"
  server_ip :: string
  server_port :: nat
  logged :: "log_entry list"
  calls :: "invocation list"

definition log_info :: "string \<Rightarrow> spawner \<Rightarrow> spawner" where
  "log_info msg s = s\<lparr>logged := logged s @ [Info msg]\<rparr>"

definition log_warn :: "string \<Rightarrow> spawner \<Rightarrow> spawner" where
  "log_warn msg s = s\<lparr>logged := logged s @ [Warn msg]\<rparr>"

text \<open>\<^verbatim>\<open>subprocess.Popen(cmd, shell=True, stdin=PIPE, stdout=PIPE).communicate(input)[0]\<close>.\<close>

definition popen :: "shell \<Rightarrow> invocation \<Rightarrow> spawner \<Rightarrow> string \<times> spawner" where
  "popen sh c s = (sh (calls s) c, s\<lparr>calls := calls s @ [c]\<rparr>)"

text \<open>\<^verbatim>\<open>run_command\<close>: standard error is not piped, so \<^verbatim>\<open>out[1]\<close> is always \<^verbatim>\<open>None\<close> and
  the function returns the decoded, stripped standard output.\<close>

definition run_command :: "shell \<Rightarrow> string \<Rightarrow> spawner \<Rightarrow> string \<times> spawner" where
  "run_command sh c s =
     (let (out, s1) = popen sh (Invocation c []) s in (strip str_isspace out, s1))"

subsection \<open>Persisted state\<close>

text \<open>Python's truth value of the job identifier: \<^verbatim>\<open>None\<close> and \<^verbatim>\<open>""\<close> are false.\<close>

definition truthy :: "string option \<Rightarrow> bool" where
  "truthy j = (case j of None \<Rightarrow> False | Some x \<Rightarrow> x \<noteq> [])"

text \<open>The state blob is a dictionary from keys to strings. The framework's
  \<^verbatim>\<open>Spawner.load_state\<close> and \<^verbatim>\<open>Spawner.clear_state\<close> touch no field of the model; the
  dictionary returned by the framework's \<^verbatim>\<open>Spawner.get_state\<close> is the parameter \<open>super_state\<close>.\<close>

definition load_state :: "(string \<rightharpoonup> string) \<Rightarrow> spawner \<Rightarrow> spawner" where
  "load_state state s =
     s\<lparr>slurm_job_id := Some (case state ''slurm_job_id'' of None \<Rightarrow> [] | Some v \<Rightarrow> v)\<rparr>"

definition get_state :: "(string \<rightharpoonup> string) \<Rightarrow> spawner \<Rightarrow> (string \<rightharpoonup> string)" where
  "get_state super_state s =
     (if truthy (slurm_job_id s)
      then (case slurm_job_id s of None \<Rightarrow> super_state
            | Some j \<Rightarrow> super_state(''slurm_job_id'' \<mapsto> j))
      else super_state)"

definition clear_state :: "spawner \<Rightarrow> spawner" where
  "clear_state s = s\<lparr>slurm_job_id := Some []\<rparr>"

subsection \<open>Querying the job state\<close>

definition state_query :: "string \<Rightarrow> invocation" where
  "state_query jid = Invocation (''squeue -h -j '' @ jid @ '' -o %T'') []"

definition check_slurm_job_state :: "shell \<Rightarrow> spawner \<Rightarrow> string \<times> spawner" where
  "check_slurm_job_state sh s =
     (case slurm_job_id s of
        None \<Rightarrow> ([], s)
      | Some jid \<Rightarrow>
          if jid = [] then ([], s)
          else (let c = ''squeue -h -j '' @ jid @ '' -o %T'';
                    (out, s1) = run_command sh c s
                in (out, log_info (''Notebook server for user '' @ user_name s1
                      @ '': Slurm jobid '' @ jid @ '' status: '' @ out) s1)))"

text \<open>\<^verbatim>\<open>poll\<close> returns \<^verbatim>\<open>None\<close> while the job is alive and \<^verbatim>\<open>1\<close> otherwise. The last branch is
  the end of the function body, which no identifier reaches.\<close>

definition poll :: "shell \<Rightarrow> spawner \<Rightarrow> int option \<times> spawner" where
  "poll sh s =
     (if slurm_job_id s \<noteq> None
      then (let (state, s1) = check_slurm_job_state sh s
            in if py_in ''RUNNING'' state \<or> py_in ''PENDING'' state then (None, s1)
               else (Some 1, clear_state s1))
      else if \<not> truthy (slurm_job_id s) then (Some 1, clear_state s)
      else (None, s))"

subsection \<open>The submission script\<close>

text \<open>
  \<^verbatim>\<open>string.Template.substitute\<close>: \<^verbatim>\<open>$$\<close> is a dollar sign, \<^verbatim>\<open>$name\<close> and \<^verbatim>\<open>${name}\<close> are
  replaced by the value of \<^verbatim>\<open>name\<close>, where a name is the longest run of ASCII letters,
  digits and underscores that does not start with a digit. Any other dollar sign raises
  \<^verbatim>\<open>ValueError\<close>, a name without a value raises \<^verbatim>\<open>KeyError\<close>.
\<close>

definition is_id_start :: "char \<Rightarrow> bool" where
  "is_id_start c = (let n = (of_char c :: nat)
     in c = CHR ''_'' \<or> (97 \<le> n \<and> n \<le> 122) \<or> (65 \<le> n \<and> n \<le> 90))"

definition is_id_char :: "char \<Rightarrow> bool" where
  "is_id_char c = (let n = (of_char c :: nat) in is_id_start c \<or> (48 \<le> n \<and> n \<le> 57))"

definition emit :: "string \<Rightarrow> error + string \<Rightarrow> error + string" where
  "emit pre r = (case r of Inl e \<Rightarrow> Inl e | Inr t \<Rightarrow> Inr (pre @ t))"

definition braced :: "string \<Rightarrow> bool" where
  "braced ds = (case ds of [] \<Rightarrow> False
     | d # _ \<Rightarrow> is_id_start d \<and>
         (case dropWhile is_id_char ds of [] \<Rightarrow> False | x # _ \<Rightarrow> x = CHR ''}''))"

function substitute :: "string \<Rightarrow> (string \<rightharpoonup> string) \<Rightarrow> error + string" where
  "substitute [] m = Inr []"
| "substitute (c # cs) m =
     (if c \<noteq> CHR ''$'' then emit [c] (substitute cs m)
      else (case cs of
              [] \<Rightarrow> Inl ValueError
            | d # ds \<Rightarrow>
                if d = CHR ''$'' then emit ''$'' (substitute ds m)
                else if is_id_start d then
                  (case m (takeWhile is_id_char cs) of
                     None \<Rightarrow> Inl KeyError
                   | Some v \<Rightarrow> emit v (substitute (dropWhile is_id_char cs) m))
                else if d = CHR ''{'' \<and> braced ds then
                  (case m (takeWhile is_id_char ds) of
                     None \<Rightarrow> Inl KeyError
                   | Some v \<Rightarrow> emit v (substitute (tl (dropWhile is_id_char ds)) m))
                else Inl ValueError))"
  by pat_completeness auto
termination
proof (relation "measure (\<lambda>(t, m). length t)")
  show "wf (measure (\<lambda>(t, m). length t))" by simp
next
  fix c :: char and cs :: string and m :: "string \<rightharpoonup> string"
  show "((cs, m), (c # cs, m)) \<in> measure (\<lambda>(t, m). length t)" by simp
next
  fix c d :: char and cs ds :: string and m :: "string \<rightharpoonup> string"
  assume "cs = d # ds"
  then show "((ds, m), (c # cs, m)) \<in> measure (\<lambda>(t, m). length t)" by simp
next
  fix c :: char and cs :: string and m :: "string \<rightharpoonup> string"
  have "length (dropWhile is_id_char cs) \<le> length cs" by (rule length_dropWhile_le)
  then show "((dropWhile is_id_char cs, m), (c # cs, m)) \<in> measure (\<lambda>(t, m). length t)"
    by simp
next
  fix c d :: char and cs ds :: string and m :: "string \<rightharpoonup> string"
  assume "cs = d # ds"
  moreover have "length (dropWhile is_id_char ds) \<le> length ds" by (rule length_dropWhile_le)
  ultimately show "((tl (dropWhile is_id_char ds), m), (c # cs, m)) \<in> measure (\<lambda>(t, m). length t)"
    by simp
qed

text \<open>The template of \<^verbatim>\<open>_run_jupyterhub_singleuser\<close>, line by line; it ends with the eight
  spaces before the closing quotes.\<close>

definition sbatch_template :: string where
  "sbatch_template =
     ''#!/bin/bash\<newline>'' @
     ''#SBATCH --partition=$queue\<newline>'' @
     ''#SBATCH --time=$hours:00:00\<newline>'' @
     ''#SBATCH -o /home/$user/jupyterhub_slurmspawner_%j.log\<newline>'' @
     ''#SBATCH --job-name=spawner-jupyterhub\<newline>'' @
     ''#SBATCH --workdir=/home/$user\<newline>'' @
     ''#SBATCH --mem=$mem\<newline>'' @
     ''#SBATCH --uid=$user\<newline>'' @
     ''#SBATCH --get-user-env=L\<newline>'' @
     ''\<newline>'' @
     ''which jupyterhub-singleuser\<newline>'' @
     ''$export_cmd\<newline>'' @
     ''$cmd\<newline>'' @
     ''        ''"

text \<open>The script that \<^verbatim>\<open>_run_jupyterhub_singleuser\<close> builds in its variable \<^verbatim>\<open>sbatch\<close>.
  \<^verbatim>\<open>full_cmd[1]\<close> raises \<^verbatim>\<open>IndexError\<close> when the command holds no semicolon.\<close>

definition sbatch_script :: "string \<Rightarrow> string \<Rightarrow> error + string" where
  "sbatch_script c user =
     (let queue = ''all''; mem = ''200''; hours = ''2''; full_cmd = split_char CHR '';'' c
      in case full_cmd of
           [] \<Rightarrow> Inl IndexError
         | [export_cmd] \<Rightarrow> Inl IndexError
         | export_cmd # c1 # _ \<Rightarrow>
             substitute sbatch_template
               [''export_cmd'' \<mapsto> export_cmd, ''cmd'' \<mapsto> c1, ''queue'' \<mapsto> queue,
                ''mem'' \<mapsto> mem, ''hours'' \<mapsto> hours, ''user'' \<mapsto> user])"

text \<open>\<^verbatim>\<open>run_jupyterhub_singleuser\<close> hands \<^verbatim>\<open>_run_jupyterhub_singleuser\<close> to the executor and
  \<^verbatim>\<open>start\<close> waits for its result; the model runs it in place. The result is the stripped
  standard output of \<^verbatim>\<open>sbatch\<close>. The \<^verbatim>\<open>print\<close> of the script to the standard output of the hub
  has no counterpart.\<close>

definition run_jupyterhub_singleuser ::
    "shell \<Rightarrow> string \<Rightarrow> string \<Rightarrow> spawner \<Rightarrow> (error + string) \<times> spawner" where
  "run_jupyterhub_singleuser sh c user s =
     (case sbatch_script c user of
        Inl e \<Rightarrow> (Inl e, s)
      | Inr sbatch \<Rightarrow>
          (let (out, s1) = popen sh (Invocation ''sbatch'' sbatch) s
           in (Inr (strip bytes_isspace out), s1)))"

subsection \<open>Resolving the execution host\<close>

definition host_query :: "string \<Rightarrow> invocation" where
  "host_query jid = Invocation (''squeue -h -j '' @ jid @ '' -o %N'') []"

text \<open>Concatenating \<^verbatim>\<open>None\<close> to a string raises \<^verbatim>\<open>TypeError\<close>.\<close>

definition get_slurm_job_info ::
    "shell \<Rightarrow> string option \<Rightarrow> spawner \<Rightarrow> (error + string) \<times> spawner" where
  "get_slurm_job_info sh jobid s =
     (case jobid of
        None \<Rightarrow> (Inl TypeError, s)
      | Some jid \<Rightarrow>
          (let (out1, s1) = popen sh (Invocation (''squeue -h -j '' @ jid @ '' -o %N'') []) s;
               node_name = strip bytes_isspace out1;
               (out2, s2) = popen sh (Invocation (''host '' @ node_name) []) s1;
               out = strip bytes_isspace out2;
               node_ip = last (split_char CHR '' '' out)
           in (Inr node_ip, s2)))"

definition name_resolution :: "string \<Rightarrow> invocation" where
  "name_resolution node_name = Invocation (''host '' @ node_name) []"

subsection \<open>start\<close>

text \<open>\<^verbatim>\<open>"%s" % x\<close> for an identifier that may be \<^verbatim>\<open>None\<close>.\<close>

definition py_str :: "string option \<Rightarrow> string" where
  "py_str j = (case j of None \<Rightarrow> ''None'' | Some x \<Rightarrow> x)"

text \<open>
  Lines 161 to 183 of \<^verbatim>\<open>start\<close>: the port, the command line, the submission and the job
  identifier. \<open>port\<close> is the value of \<^verbatim>\<open>random_port()\<close>; \<open>int_ok\<close> holds of the strings on which
  the interpreter's \<^verbatim>\<open>int\<close> does not raise \<^verbatim>\<open>ValueError\<close>. A missing \<^verbatim>\<open>JPY_API_TOKEN\<close> raises
  \<^verbatim>\<open>KeyError\<close>.
\<close>

definition start_submit ::
    "shell \<Rightarrow> (string \<Rightarrow> bool) \<Rightarrow> nat \<Rightarrow> spawner \<Rightarrow> (error \<times> spawner) + spawner" where
  "start_submit sh int_ok port s =
     (let s1 = s\<lparr>server_port := port\<rparr>;
          c = cmd s1 @ args s1;
          s2 = log_info (''Spawning '' @ py_join '' '' c) s1
      in case env s2 ''JPY_API_TOKEN'' of
           None \<Rightarrow> Inl (KeyError, s2)
         | Some tok \<Rightarrow>
             (let c1 = (''export JPY_API_TOKEN='' @ [CHR 0x22] @ tok @ [CHR 0x22] @ '';'') # c
              in case run_jupyterhub_singleuser sh (py_join '' '' c1) (user_name s2) s2 of
                   (Inl e, s3) \<Rightarrow> Inl (e, s3)
                 | (Inr output, s3) \<Rightarrow>
                     (let j = last (split_char CHR '' '' output);
                          s4 = s3\<lparr>slurm_job_id := Some j\<rparr>
                      in Inr (if int_ok j then s4
                              else log_info
                                (''sbatch returned this at the end of their string: '' @ j) s4))))"

text \<open>How the \<^verbatim>\<open>for i in range(15)\<close> loop is left: by \<^verbatim>\<open>break\<close>, by running out of
  iterations, or by \<^verbatim>\<open>return\<close>. \<^verbatim>\<open>time.sleep(1)\<close> has no counterpart.\<close>

datatype loop_exit = Break | Exhausted | Return int

fun start_loop :: "shell \<Rightarrow> nat \<Rightarrow> string \<Rightarrow> spawner \<Rightarrow> loop_exit \<times> spawner" where
  "start_loop sh 0 job_state s = (Exhausted, s)"
| "start_loop sh (Suc n) job_state s =
     (let s1 = log_info (''job_state is '' @ job_state) s
      in if py_in ''RUNNING'' job_state then (Break, s1)
         else if py_in ''PENDING'' job_state then
           (let (job_state1, s2) = check_slurm_job_state sh s1
            in start_loop sh n job_state1 s2)
         else (Return 1,
               log_info (''Job '' @ py_str (slurm_job_id s1) @ '' failed to start!'') s1))"

text \<open>Lines 186 to 196: the first query and the loop.\<close>

definition start_wait :: "shell \<Rightarrow> spawner \<Rightarrow> loop_exit \<times> spawner" where
  "start_wait sh s =
     (let (job_state, s1) = check_slurm_job_state sh s in start_loop sh 15 job_state s1)"

text \<open>Lines 198 to 201: the address of the node.\<close>

definition start_resolve :: "shell \<Rightarrow> spawner \<Rightarrow> (error + int option) \<times> spawner" where
  "start_resolve sh s =
     (case get_slurm_job_info sh (slurm_job_id s) s of
        (Inl e, s1) \<Rightarrow> (Inl e, s1)
      | (Inr notebook_ip, s1) \<Rightarrow>
          (let s2 = s1\<lparr>server_ip := notebook_ip\<rparr>
           in (Inr None, log_info (''Notebook server ip is '' @ server_ip s2) s2)))"

text \<open>\<^verbatim>\<open>start\<close> returns \<^verbatim>\<open>1\<close> from inside the loop and \<^verbatim>\<open>None\<close> at the end of its body.\<close>

definition start ::
    "shell \<Rightarrow> (string \<Rightarrow> bool) \<Rightarrow> nat \<Rightarrow> spawner \<Rightarrow> (error + int option) \<times> spawner" where
  "start sh int_ok port s =
     (case start_submit sh int_ok port s of
        Inl (e, s1) \<Rightarrow> (Inl e, s1)
      | Inr s1 \<Rightarrow>
          (case start_wait sh s1 of
             (Return r, s2) \<Rightarrow> (Inr (Some r), s2)
           | (Break, s2) \<Rightarrow> start_resolve sh s2
           | (Exhausted, s2) \<Rightarrow> start_resolve sh s2))"

subsection \<open>stop\<close>

definition scancel :: "string \<Rightarrow> invocation" where
  "scancel jid = Invocation (''scancel '' @ jid) []"

text \<open>\<^verbatim>\<open>stop\<close> never reads its argument \<^verbatim>\<open>now\<close>.\<close>

definition stop :: "bool \<Rightarrow> shell \<Rightarrow> spawner \<Rightarrow> (error + unit) \<times> spawner" where
  "stop now sh s =
     (let (status, s1) = poll sh s
      in if status \<noteq> None then (Inr (), s1)
         else (case slurm_job_id s1 of
                 None \<Rightarrow> (Inl TypeError, s1)
               | Some jid \<Rightarrow>
                   (let c = ''scancel '' @ jid;
                        s2 = log_info (''Cancelling slurm job '' @ jid @ '' for user ''
                               @ user_name s1) s1;
                        (job_state, s3) = run_command sh c s2
                    in if job_state \<in> set [''CANCELLED'', ''COMPLETED'', ''FAILED'', ''COMPLETING'']
                       then (Inr (), s3)
                       else (let (status1, s4) = poll sh s3
                             in if status1 = None
                                then (Inr (), log_warn (''Job '' @ py_str (slurm_job_id s4)
                                        @ '' never cancelled'') s4)
                                else (Inr (), s4)))))"

subsection \<open>The exceptions of external commands\<close>









section \<open>Notions used to state the properties\<close>





text \<open>The three ways in which lines 189 to 196 of \<^verbatim>\<open>start\<close> treat the output of the state
  query: the first branch tests for \<^verbatim>\<open>RUNNING\<close>, the second for \<^verbatim>\<open>PENDING\<close>, the last takes
  everything else.\<close>

datatype job_state = RUNNING | PENDING | TERMINAL

definition job_state_of :: "string \<Rightarrow> job_state" where
  "job_state_of out =
     (if py_in ''RUNNING'' out then RUNNING
      else if py_in ''PENDING'' out then PENDING
      else TERMINAL)"

text \<open>What \<^verbatim>\<open>run_command\<close> returns for the state query of job \<open>jid\<close> when the invocations \<open>h\<close>
  and then \<open>k\<close> state queries of the same job came before it.\<close>

definition reply :: "shell \<Rightarrow> invocation list \<Rightarrow> string \<Rightarrow> nat \<Rightarrow> string" where
  "reply sh h jid k =
     strip str_isspace (sh (h @ replicate k (state_query jid)) (state_query jid))"

text \<open>The node name and the address that \<^verbatim>\<open>get_slurm_job_info\<close> reads for job \<open>jid\<close> when the
  invocations \<open>h\<close> came before it.\<close>

definition node_name_of :: "shell \<Rightarrow> invocation list \<Rightarrow> string \<Rightarrow> string" where
  "node_name_of sh h jid = strip bytes_isspace (sh h (host_query jid))"

definition node_ip_of :: "shell \<Rightarrow> invocation list \<Rightarrow> string \<Rightarrow> string" where
  "node_ip_of sh h jid =
     last (split_char CHR '' '' (strip bytes_isspace
       (sh (h @ [host_query jid]) (name_resolution (node_name_of sh h jid)))))"

text \<open>A spawner without its log records.\<close>

definition unlogged :: "spawner \<Rightarrow> spawner" where
  "unlogged s = s\<lparr>logged := []\<rparr>"

text \<open>The last token of a text whose tokens are separated by white space of any kind, as
  the specification words the parsing of the submit output.\<close>

definition last_whitespace_token :: "string \<Rightarrow> string" where
  "last_whitespace_token s =
     rev (takeWhile (\<lambda>c. \<not> str_isspace c) (dropWhile str_isspace (rev s)))"

subsection \<open>A scheduler stub and a spawner for concrete runs\<close>

text \<open>The stub answers \<^verbatim>\<open>sbatch\<close> with \<open>submit_out\<close>, the \<open>k\<close>-th repetition of a state query with
  the \<open>k\<close>-th element of \<open>states\<close> (nothing once the list is used up), the host query with
  \<open>node\<close>, \<^verbatim>\<open>host\<close> with \<open>addr\<close> and \<^verbatim>\<open>scancel\<close> with \<open>cancel_out\<close>.\<close>

definition stub :: "string \<Rightarrow> string list \<Rightarrow> string \<Rightarrow> string \<Rightarrow> string \<Rightarrow> shell" where
  "stub submit_out states node addr cancel_out h i =
     (if command i = ''sbatch'' then submit_out
      else if suffix '' -o %T'' (command i) then
        (let k = count_list h i in if k < length states then states ! k else [])
      else if suffix '' -o %N'' (command i) then node
      else if prefix ''host '' (command i) then addr
      else if prefix ''scancel '' (command i) then cancel_out
      else [])"

definition alice :: spawner where
  "alice = \<lparr>user_name = ''alice'', cmd = [''jupyterhub-singleuser''], args = [''--port=8888''],
     env = [''JPY_API_TOKEN'' \<mapsto> ''tok''], slurm_job_id = Some [], server_ip = [],
     server_port = 0, logged = [], calls = []\<rparr>"

text \<open>Four schedulers: the job runs at the fourth state query; the job is pending at
  fifteen state queries and unknown afterwards; the job is pending once and then failed;
  \<^verbatim>\<open>sbatch\<close> separates the identifier from the text before it by a tab.\<close>

definition stub_running4 :: shell where
  "stub_running4 = stub ''Submitted batch job 209\<newline>''
     [''PENDING\<newline>'', ''PENDING\<newline>'', ''PENDING\<newline>'', ''RUNNING\<newline>'']
     ''node1\<newline>'' ''node1 has address 10.0.0.1\<newline>'' []"

definition stub_pending15 :: shell where
  "stub_pending15 = stub ''Submitted batch job 209\<newline>'' (replicate 15 ''PENDING\<newline>'') [] [] []"


definition stub_tab :: shell where
  "stub_tab = stub (''Submitted batch job'' @ [CHR 0x09] @ ''209'' @ [CHR 0x0A]) [] [] [] []"

text \<open>Two more schedulers, which print nothing on \<^verbatim>\<open>scancel\<close>: one that knows no job, and one
  for which the job runs at the first state query and is gone afterwards. \<open>alice_job\<close> is the
  spawner with a job identifier.\<close>

definition stub_gone :: shell where
  "stub_gone = stub [] [] [] [] []"

definition stub_cancel :: shell where
  "stub_cancel = stub [] [''RUNNING\<newline>''] [] [] []"

text \<open>A scheduler that answers the state query with two lines, as \<^verbatim>\<open>squeue\<close> does for a job
  array with two running tasks.\<close>

definition stub_array :: shell where
  "stub_array = stub [] [''RUNNING\<newline>RUNNING\<newline>''] [] [] []"



definition alice_job :: spawner where
  "alice_job = alice\<lparr>slurm_job_id := Some ''209''\<rparr>"

fun digits :: "string \<Rightarrow> bool" where
  "digits [] = False"
| "digits [c] = (let n = (of_char c :: nat) in 48 \<le> n \<and> n \<le> 57)"
| "digits (c # d # ds) = (digits [c] \<and> digits (d # ds))"

section \<open>Properties\<close>

subsection \<open>Substring tests and splitting\<close>

lemma py_in_Nil [simp]: "py_in [] ys" "\<not> py_in (x # xs) []"
  by (simp_all add: py_in_def)

lemma py_in_Cons: "py_in (x # xs) (y # ys) = (prefix (x # xs) (y # ys) \<or> py_in (x # xs) ys)"
  by (simp add: py_in_def sublist_Cons_right)

lemma split_char_not_Nil [simp]: "split_char c s \<noteq> []"
  by (induction s) (auto split: list.splits)

subsection \<open>poll without an identifier\<close>

lemma check_absent:
  "\<not> truthy (slurm_job_id s) \<Longrightarrow> check_slurm_job_state sh s = ([], s)"
  by (simp add: check_slurm_job_state_def truthy_def split: option.splits)

text \<open>
  Claim C3. When the job identifier is absent (\<^verbatim>\<open>None\<close> or the empty string), \<^verbatim>\<open>poll\<close>
  returns \<^verbatim>\<open>1\<close>, the not-running result, whatever the scheduler would answer, and the trace
  of external processes is the one it started with: no state query is executed. The
  identifier is the empty string afterwards.
\<close>

theorem poll_absent:
  "slurm_job_id s = None \<or> slurm_job_id s = Some [] \<Longrightarrow>
     poll sh s = (Some 1, clear_state s) \<and> calls (snd (poll sh s)) = calls s"
  by (auto simp: poll_def check_slurm_job_state_def truthy_def clear_state_def)

theorem poll_absent_witness:
  "poll (stub [] [''RUNNING''] [] [] []) (alice\<lparr>slurm_job_id := None\<rparr>) = (Some 1, alice)
   \<and> calls (snd (poll (stub [] [''RUNNING''] [] [] []) (alice\<lparr>slurm_job_id := None\<rparr>))) = []
   \<and> poll (stub [] [''RUNNING''] [] [] []) alice = (Some 1, alice)
   \<and> calls (snd (poll (stub [] [''RUNNING''] [] [] []) alice)) = []"
  using poll_absent [of "alice\<lparr>slurm_job_id := None\<rparr>" "stub [] [''RUNNING''] [] [] []"]
    poll_absent [of alice "stub [] [''RUNNING''] [] [] []"]
  by (simp add: alice_def clear_state_def)

subsection \<open>The argument of stop\<close>

text \<open>
  Claim C10. The argument \<^verbatim>\<open>now\<close> of \<^verbatim>\<open>stop\<close> has no effect: for every spawner and every
  scheduler, \<^verbatim>\<open>stop(now=True)\<close> and \<^verbatim>\<open>stop(now=False)\<close> give the same outcome and the same
  final state, which holds the trace of external processes and the log.
\<close>

theorem stop_ignores_now: "stop True sh s = stop False sh s"
  by (simp add: stop_def)

subsection \<open>Deriving the job state\<close>

lemma start_loop_by_state:
  "start_loop sh (Suc n) out s =
     (case job_state_of out of
        RUNNING \<Rightarrow> (Break, log_info (''job_state is '' @ out) s)
      | PENDING \<Rightarrow>
          (let (out1, s2) = check_slurm_job_state sh (log_info (''job_state is '' @ out) s)
           in start_loop sh n out1 s2)
      | TERMINAL \<Rightarrow>
          (Return 1, log_info (''Job '' @ py_str (slurm_job_id s) @ '' failed to start!'')
                       (log_info (''job_state is '' @ out) s)))"
  by (simp add: job_state_of_def log_info_def Let_def)

lemma poll_by_state:
  "slurm_job_id s \<noteq> None \<Longrightarrow>
     (fst (poll sh s) = None) = (job_state_of (fst (check_slurm_job_state sh s)) \<noteq> TERMINAL)"
  by (auto simp: poll_def job_state_of_def split: prod.splits)

text \<open>
  Claim C5, as amended. What \<^verbatim>\<open>start\<close> and \<^verbatim>\<open>poll\<close> do with the output of the state query
  depends on that string alone, through two substring tests. In an iteration of the loop of
  \<^verbatim>\<open>start\<close>, \<^verbatim>\<open>"RUNNING"\<close> breaks, \<^verbatim>\<open>"PENDING"\<close> queries again and goes to the next iteration, and
  the empty string and each of \<^verbatim>\<open>"CANCELLED"\<close>, \<^verbatim>\<open>"COMPLETED"\<close>, \<^verbatim>\<open>"FAILED"\<close>, \<^verbatim>\<open>"COMPLETING"\<close>
  return \<^verbatim>\<open>1\<close>. In general an output that contains \<^verbatim>\<open>RUNNING\<close> breaks the loop, also when it
  contains \<^verbatim>\<open>PENDING\<close> as well, since \<^verbatim>\<open>RUNNING\<close> is tested first; an output that contains
  \<^verbatim>\<open>PENDING\<close> and not \<^verbatim>\<open>RUNNING\<close> queries again; only an output that contains neither returns
  \<^verbatim>\<open>1\<close>. \<^verbatim>\<open>poll\<close> reports the job alive exactly when the output contains one of the two words.
  The loop and \<^verbatim>\<open>poll\<close> are therefore governed by the three-valued state \<open>job_state_of\<close>.
\<close>

theorem job_state_derivation:
  "start_loop sh (Suc n) ''RUNNING'' s = (Break, log_info ''job_state is RUNNING'' s)
   \<and> start_loop sh (Suc n) ''PENDING'' s =
       (let (out1, s2) = check_slurm_job_state sh (log_info ''job_state is PENDING'' s)
        in start_loop sh n out1 s2)
   \<and> fst (start_loop sh (Suc n) [] s) = Return 1
   \<and> fst (start_loop sh (Suc n) ''CANCELLED'' s) = Return 1
   \<and> fst (start_loop sh (Suc n) ''COMPLETED'' s) = Return 1
   \<and> fst (start_loop sh (Suc n) ''FAILED'' s) = Return 1
   \<and> fst (start_loop sh (Suc n) ''COMPLETING'' s) = Return 1
   \<and> (py_in ''RUNNING'' out \<longrightarrow>
        start_loop sh (Suc n) out s = (Break, log_info (''job_state is '' @ out) s))
   \<and> (\<not> py_in ''RUNNING'' out \<and> py_in ''PENDING'' out \<longrightarrow>
        start_loop sh (Suc n) out s =
          (let (out1, s2) = check_slurm_job_state sh (log_info (''job_state is '' @ out) s)
           in start_loop sh n out1 s2))
   \<and> (\<not> py_in ''RUNNING'' out \<and> \<not> py_in ''PENDING'' out \<longrightarrow>
        start_loop sh (Suc n) out s =
          (Return 1, log_info (''Job '' @ py_str (slurm_job_id s) @ '' failed to start!'')
                       (log_info (''job_state is '' @ out) s)))
   \<and> (slurm_job_id s \<noteq> None \<longrightarrow>
        fst (poll sh s) =
          (if py_in ''RUNNING'' (fst (check_slurm_job_state sh s))
              \<or> py_in ''PENDING'' (fst (check_slurm_job_state sh s))
           then None else Some 1))
   \<and> start_loop sh (Suc n) out s =
       (case job_state_of out of
          RUNNING \<Rightarrow> (Break, log_info (''job_state is '' @ out) s)
        | PENDING \<Rightarrow>
            (let (out1, s2) = check_slurm_job_state sh (log_info (''job_state is '' @ out) s)
             in start_loop sh n out1 s2)
        | TERMINAL \<Rightarrow>
            (Return 1, log_info (''Job '' @ py_str (slurm_job_id s) @ '' failed to start!'')
                         (log_info (''job_state is '' @ out) s)))
   \<and> (slurm_job_id s \<noteq> None \<longrightarrow>
        (fst (poll sh s) = None) = (job_state_of (fst (check_slurm_job_state sh s)) \<noteq> TERMINAL))"
proof -
  have lits: "job_state_of ''PENDING'' = PENDING" "job_state_of ''RUNNING'' = RUNNING"
    "job_state_of [] = TERMINAL" "job_state_of ''CANCELLED'' = TERMINAL"
    "job_state_of ''COMPLETED'' = TERMINAL" "job_state_of ''FAILED'' = TERMINAL"
    "job_state_of ''COMPLETING'' = TERMINAL"
    by (simp_all add: job_state_of_def py_in_Cons)
  have 1: "start_loop sh (Suc n) ''RUNNING'' s = (Break, log_info ''job_state is RUNNING'' s)"
    using lits(2) by (simp add: start_loop_by_state del: start_loop.simps)
  have 2: "start_loop sh (Suc n) ''PENDING'' s =
       (let (out1, s2) = check_slurm_job_state sh (log_info ''job_state is PENDING'' s)
        in start_loop sh n out1 s2)"
    using lits(1) by (simp add: start_loop_by_state del: start_loop.simps)
  have 3: "fst (start_loop sh (Suc n) [] s) = Return 1"
    "fst (start_loop sh (Suc n) ''CANCELLED'' s) = Return 1"
    "fst (start_loop sh (Suc n) ''COMPLETED'' s) = Return 1"
    "fst (start_loop sh (Suc n) ''FAILED'' s) = Return 1"
    "fst (start_loop sh (Suc n) ''COMPLETING'' s) = Return 1"
    using lits(3-7) by (simp_all add: start_loop_by_state del: start_loop.simps)
  have 4: "py_in ''RUNNING'' out \<longrightarrow>
        start_loop sh (Suc n) out s = (Break, log_info (''job_state is '' @ out) s)"
    by (simp add: Let_def)
  have 5: "\<not> py_in ''RUNNING'' out \<and> py_in ''PENDING'' out \<longrightarrow>
        start_loop sh (Suc n) out s =
          (let (out1, s2) = check_slurm_job_state sh (log_info (''job_state is '' @ out) s)
           in start_loop sh n out1 s2)"
    by (simp add: Let_def)
  have 6: "\<not> py_in ''RUNNING'' out \<and> \<not> py_in ''PENDING'' out \<longrightarrow>
        start_loop sh (Suc n) out s =
          (Return 1, log_info (''Job '' @ py_str (slurm_job_id s) @ '' failed to start!'')
                       (log_info (''job_state is '' @ out) s))"
    by (simp add: Let_def log_info_def)
  have 7: "slurm_job_id s \<noteq> None \<longrightarrow>
        fst (poll sh s) =
          (if py_in ''RUNNING'' (fst (check_slurm_job_state sh s))
              \<or> py_in ''PENDING'' (fst (check_slurm_job_state sh s))
           then None else Some 1)"
    by (auto simp: poll_def split: prod.splits)
  from 1 2 3 4 5 6 7 start_loop_by_state [of sh n out s] poll_by_state [of s sh]
  show ?thesis by blast
qed

theorem job_state_derivation_witness:
  "fst (start_loop stub_gone 1 ''PENDING RUNNING'' alice_job) = Break
   \<and> calls (snd (start_loop stub_gone 1 ''PENDING RUNNING'' alice_job)) = []
   \<and> fst (start_loop stub_gone 1 ''PENDING (Resources)'' alice_job) = Exhausted
   \<and> map command (calls (snd (start_loop stub_gone 1 ''PENDING (Resources)'' alice_job)))
       = [''squeue -h -j 209 -o %T'']
   \<and> fst (start_loop stub_gone 1 ''TIMEOUT'' alice_job) = Return 1
   \<and> calls (snd (start_loop stub_gone 1 ''TIMEOUT'' alice_job)) = []
   \<and> fst (poll stub_cancel alice_job) = None"
proof -
  have one: "(1::nat) = Suc 0" by simp
  have a: "py_in ''RUNNING'' ''PENDING RUNNING''" by (simp add: py_in_Cons)
  have b: "\<not> py_in ''RUNNING'' ''PENDING (Resources)'' \<and> py_in ''PENDING'' ''PENDING (Resources)''"
    by (simp add: py_in_Cons)
  have c: "\<not> py_in ''RUNNING'' ''TIMEOUT'' \<and> \<not> py_in ''PENDING'' ''TIMEOUT''"
    by (simp add: py_in_Cons)
  have d: "slurm_job_id alice_job \<noteq> None" by (simp add: alice_job_def)
  have e: "py_in ''RUNNING'' (fst (check_slurm_job_state stub_cancel alice_job))"
    by code_simp
  have f: "map command (calls (snd (check_slurm_job_state stub_gone
              (log_info ''job_state is PENDING (Resources)'' alice_job))))
            = [''squeue -h -j 209 -o %T'']"
    by code_simp
  from job_state_derivation [of stub_gone 0 alice_job "''PENDING RUNNING''"] a
  have r1: "start_loop stub_gone (Suc 0) ''PENDING RUNNING'' alice_job
      = (Break, log_info ''job_state is PENDING RUNNING'' alice_job)" by simp
  from job_state_derivation [of stub_gone 0 alice_job "''PENDING (Resources)''"] b
  have r2: "start_loop stub_gone (Suc 0) ''PENDING (Resources)'' alice_job =
          (let (out1, s2) = check_slurm_job_state stub_gone
                 (log_info ''job_state is PENDING (Resources)'' alice_job)
           in start_loop stub_gone 0 out1 s2)" by simp
  from job_state_derivation [of stub_gone 0 alice_job "''TIMEOUT''"] c
  have r3: "start_loop stub_gone (Suc 0) ''TIMEOUT'' alice_job =
          (Return 1, log_info (''Job '' @ py_str (slurm_job_id alice_job) @ '' failed to start!'')
                       (log_info ''job_state is TIMEOUT'' alice_job))" by simp
  from job_state_derivation [of stub_cancel 0 alice_job "[]"] d e
  have r4: "fst (poll stub_cancel alice_job) = None" by simp
  have r2': "fst (start_loop stub_gone (Suc 0) ''PENDING (Resources)'' alice_job) = Exhausted
     \<and> map command (calls (snd (start_loop stub_gone (Suc 0) ''PENDING (Resources)'' alice_job)))
       = [''squeue -h -j 209 -o %T'']"
    unfolding r2 using f by (simp add: split_beta)
  show ?thesis
    unfolding one r1 r3 using r2' r4 by (simp add: alice_job_def alice_def log_info_def)
qed

text \<open>The claim as stated fails: the two-line output that \<^verbatim>\<open>squeue\<close> prints for a job array
  with two running tasks is none of \<^verbatim>\<open>"PENDING"\<close>, \<^verbatim>\<open>"RUNNING"\<close> and \<^verbatim>\<open>""\<close>, and it is not
  treated as terminal: the loop of \<^verbatim>\<open>start\<close> breaks on it as for a running job, and \<^verbatim>\<open>poll\<close>
  reports the job alive.\<close>

theorem job_state_other_counterexample:
  "''RUNNING\<newline>RUNNING'' \<noteq> ''PENDING'' \<and> ''RUNNING\<newline>RUNNING'' \<noteq> ''RUNNING''
   \<and> ''RUNNING\<newline>RUNNING'' \<noteq> []
   \<and> fst (start_loop stub_gone 1 ''RUNNING\<newline>RUNNING'' alice_job) = Break
   \<and> fst (check_slurm_job_state stub_array alice_job) = ''RUNNING\<newline>RUNNING''
   \<and> fst (poll stub_array alice_job) = None"
proof -
  have a: "fst (start_loop stub_gone 1 ''RUNNING\<newline>RUNNING'' alice_job) = Break" by code_simp
  have b: "fst (check_slurm_job_state stub_array alice_job) = ''RUNNING\<newline>RUNNING''" by code_simp
  have c: "fst (poll stub_array alice_job) = None" by code_simp
  from a b c show ?thesis by simp
qed

subsection \<open>Persisting the identifier\<close>

text \<open>
  Claim C6. For a spawner with a non-empty job identifier, the dictionary of \<^verbatim>\<open>get_state\<close>
  holds the identifier under the key \<^verbatim>\<open>slurm_job_id\<close>; \<^verbatim>\<open>load_state\<close> of that dictionary on
  any other instance sets its identifier to the same string; and after \<^verbatim>\<open>clear_state\<close>,
  \<^verbatim>\<open>get_state\<close> returns the framework's dictionary as it is, so it holds no identifier key
  when the framework's dictionary holds none.
\<close>

theorem state_round_trip:
  assumes "slurm_job_id s = Some j" and "j \<noteq> []"
  shows "get_state super_state s ''slurm_job_id'' = Some j
    \<and> slurm_job_id (load_state (get_state super_state s) fresh) = Some j
    \<and> get_state super_state (clear_state s) = super_state
    \<and> (super_state ''slurm_job_id'' = None \<longrightarrow>
         get_state super_state (clear_state s) ''slurm_job_id'' = None)"
  using assms by (simp add: get_state_def load_state_def clear_state_def truthy_def)

theorem state_round_trip_witness:
  "get_state Map.empty (alice\<lparr>slurm_job_id := Some ''209''\<rparr>) ''slurm_job_id'' = Some ''209''
   \<and> slurm_job_id (load_state (get_state Map.empty (alice\<lparr>slurm_job_id := Some ''209''\<rparr>)) alice)
       = Some ''209''
   \<and> get_state Map.empty (clear_state (alice\<lparr>slurm_job_id := Some ''209''\<rparr>)) ''slurm_job_id''
       = None"
proof -
  have a: "slurm_job_id (alice\<lparr>slurm_job_id := Some ''209''\<rparr>) = Some ''209''" by simp
  have b: "''209'' \<noteq> []" by simp
  have c: "(Map.empty :: string \<rightharpoonup> string) ''slurm_job_id'' = None" by simp
  show ?thesis
    using c state_round_trip [OF a b, of Map.empty alice] by simp
qed

subsection \<open>States up to the log\<close>

lemma unlogged_fields [simp]:
  "calls (unlogged s) = calls s" "slurm_job_id (unlogged s) = slurm_job_id s"
  "user_name (unlogged s) = user_name s" "server_ip (unlogged s) = server_ip s"
  "server_port (unlogged s) = server_port s" "cmd (unlogged s) = cmd s"
  "args (unlogged s) = args s" "env (unlogged s) = env s"
  by (simp_all add: unlogged_def)

lemma unlogged_log [simp]:
  "unlogged (log_info m s) = unlogged s" "unlogged (log_warn m s) = unlogged s"
  "unlogged (s\<lparr>logged := l\<rparr>) = unlogged s"
  by (simp_all add: unlogged_def log_info_def log_warn_def)

lemma log_fields [simp]:
  "calls (log_info m s) = calls s" "slurm_job_id (log_info m s) = slurm_job_id s"
  "user_name (log_info m s) = user_name s"
  "calls (log_warn m s) = calls s" "slurm_job_id (log_warn m s) = slurm_job_id s"
  by (simp_all add: log_info_def log_warn_def)

lemma unlogged_update [simp]:
  "unlogged (s\<lparr>calls := c\<rparr>) = (unlogged s)\<lparr>calls := c\<rparr>"
  "unlogged (s\<lparr>slurm_job_id := j\<rparr>) = (unlogged s)\<lparr>slurm_job_id := j\<rparr>"
  "unlogged (s\<lparr>server_ip := a\<rparr>) = (unlogged s)\<lparr>server_ip := a\<rparr>"
  by (simp_all add: unlogged_def)

lemma unlogged_eqD:
  assumes "unlogged t = unlogged u"
  shows "calls t = calls u" "slurm_job_id t = slurm_job_id u" "user_name t = user_name u"
    "server_ip t = server_ip u" "server_port t = server_port u"
proof -
  have "calls (unlogged t) = calls (unlogged u)" using assms by simp
  then show "calls t = calls u" by simp
  have "slurm_job_id (unlogged t) = slurm_job_id (unlogged u)" using assms by simp
  then show "slurm_job_id t = slurm_job_id u" by simp
  have "user_name (unlogged t) = user_name (unlogged u)" using assms by simp
  then show "user_name t = user_name u" by simp
  have "server_ip (unlogged t) = server_ip (unlogged u)" using assms by simp
  then show "server_ip t = server_ip u" by simp
  have "server_port (unlogged t) = server_port (unlogged u)" using assms by simp
  then show "server_port t = server_port u" by simp
qed

subsection \<open>One state query\<close>

lemma check_present:
  assumes "slurm_job_id s = Some jid" and "jid \<noteq> []"
  shows "\<exists>t. check_slurm_job_state sh s = (reply sh (calls s) jid 0, t)
           \<and> unlogged t = unlogged (s\<lparr>calls := calls s @ [state_query jid]\<rparr>)"
  using assms
  by (simp add: check_slurm_job_state_def run_command_def popen_def reply_def state_query_def Let_def)

subsection \<open>The loop of start over a run of pending replies\<close>

lemma loop_pending:
  assumes "jid \<noteq> []"
  shows "slurm_job_id s = Some jid \<Longrightarrow> calls s = h @ replicate (Suc k) (state_query jid) \<Longrightarrow>
     (\<forall>i. k \<le> i \<and> i < k + m \<longrightarrow> job_state_of (reply sh h jid i) = PENDING) \<Longrightarrow> m \<le> n \<Longrightarrow>
     \<exists>t. start_loop sh n (reply sh h jid k) s = start_loop sh (n - m) (reply sh h jid (k + m)) t
        \<and> unlogged t = unlogged (s\<lparr>calls := h @ replicate (Suc (k + m)) (state_query jid)\<rparr>)"
proof (induction m arbitrary: s k n)
  case 0
  then show ?case by (intro exI [of _ s]) simp
next
  case (Suc m)
  from Suc.prems(4) obtain n' where n: "n = Suc n'" and mn: "m \<le> n'"
    by (cases n) auto
  let ?q = "state_query jid"
  let ?s1 = "log_info (''job_state is '' @ reply sh h jid k) s"
  have pend: "job_state_of (reply sh h jid k) = PENDING"
    using Suc.prems(3) by simp
  have id1: "slurm_job_id ?s1 = Some jid" using Suc.prems(1) by simp
  from check_present [OF id1 assms, of sh] obtain t1 where
    chk: "check_slurm_job_state sh ?s1 = (reply sh (calls ?s1) jid 0, t1)"
    and t1: "unlogged t1 = unlogged (?s1\<lparr>calls := calls ?s1 @ [?q]\<rparr>)" by blast
  have r: "reply sh (calls ?s1) jid 0 = reply sh h jid (Suc k)"
    using Suc.prems(2) by (simp add: reply_def replicate_append_same)
  have step: "start_loop sh n (reply sh h jid k) s = start_loop sh n' (reply sh h jid (Suc k)) t1"
    unfolding n using pend chk r by (simp add: start_loop_by_state del: start_loop.simps)
  have t1_id: "slurm_job_id t1 = Some jid"
    using unlogged_eqD(2) [OF t1] Suc.prems(1) by simp
  have t1_calls: "calls t1 = h @ replicate (Suc (Suc k)) ?q"
    using unlogged_eqD(1) [OF t1] Suc.prems(2) by (simp add: replicate_append_same)
  have rest: "\<forall>i. Suc k \<le> i \<and> i < Suc k + m \<longrightarrow> job_state_of (reply sh h jid i) = PENDING"
    using Suc.prems(3) by simp
  from Suc.IH [OF t1_id t1_calls rest mn] obtain t where
    t: "start_loop sh n' (reply sh h jid (Suc k)) t1
          = start_loop sh (n' - m) (reply sh h jid (Suc k + m)) t"
    and tu: "unlogged t = unlogged (t1\<lparr>calls := h @ replicate (Suc (Suc k + m)) ?q\<rparr>)"
    by blast
  have "unlogged t = unlogged (s\<lparr>calls := h @ replicate (Suc (k + Suc m)) ?q\<rparr>)"
    using tu t1 by simp
  moreover have "start_loop sh n (reply sh h jid k) s
      = start_loop sh (n - Suc m) (reply sh h jid (k + Suc m)) t"
    using step t n by simp
  ultimately show ?case by blast
qed


lemma start_wait_after_pending:
  assumes id: "slurm_job_id s = Some jid" and ne: "jid \<noteq> []"
    and pend: "\<forall>i<m. job_state_of (reply sh (calls s) jid i) = PENDING" and m: "m \<le> 15"
  shows "\<exists>t. start_wait sh s = start_loop sh (15 - m) (reply sh (calls s) jid m) t
           \<and> unlogged t = unlogged (s\<lparr>calls := calls s @ replicate (Suc m) (state_query jid)\<rparr>)"
proof -
  from check_present [OF id ne, of sh] obtain t0 where
    chk: "check_slurm_job_state sh s = (reply sh (calls s) jid 0, t0)"
    and t0: "unlogged t0 = unlogged (s\<lparr>calls := calls s @ [state_query jid]\<rparr>)" by blast
  have id0: "slurm_job_id t0 = Some jid" using unlogged_eqD(2) [OF t0] id by simp
  have calls0: "calls t0 = calls s @ replicate (Suc 0) (state_query jid)"
    using unlogged_eqD(1) [OF t0] by simp
  have pend0: "\<forall>i. 0 \<le> i \<and> i < 0 + m \<longrightarrow> job_state_of (reply sh (calls s) jid i) = PENDING"
    using pend by simp
  from loop_pending [OF ne id0 calls0 pend0 m] obtain t where
    run: "start_loop sh 15 (reply sh (calls s) jid 0) t0
            = start_loop sh (15 - m) (reply sh (calls s) jid (0 + m)) t"
    and t: "unlogged t = unlogged (t0\<lparr>calls := calls s @ replicate (Suc (0 + m)) (state_query jid)\<rparr>)"
    by blast
  have "start_wait sh s = start_loop sh (15 - m) (reply sh (calls s) jid m) t"
    using chk run by (simp add: start_wait_def)
  moreover have "unlogged t = unlogged (s\<lparr>calls := calls s @ replicate (Suc m) (state_query jid)\<rparr>)"
    using t t0 by simp
  ultimately show ?thesis by blast
qed

lemma start_wait_running:
  assumes id: "slurm_job_id s = Some jid" and ne: "jid \<noteq> []"
    and pend: "\<forall>i<m. job_state_of (reply sh (calls s) jid i) = PENDING" and m: "m < 15"
    and run: "job_state_of (reply sh (calls s) jid m) = RUNNING"
  shows "\<exists>t. start_wait sh s = (Break, t)
           \<and> unlogged t = unlogged (s\<lparr>calls := calls s @ replicate (Suc m) (state_query jid)\<rparr>)"
proof -
  from m have m': "m \<le> 15" by simp
  from start_wait_after_pending [OF id ne pend m'] obtain t where
    w: "start_wait sh s = start_loop sh (15 - m) (reply sh (calls s) jid m) t"
    and t: "unlogged t = unlogged (s\<lparr>calls := calls s @ replicate (Suc m) (state_query jid)\<rparr>)"
    by blast
  from m obtain n where n: "15 - m = Suc n" by (cases "15 - m") auto
  let ?t = "log_info (''job_state is '' @ reply sh (calls s) jid m) t"
  have "start_wait sh s = (Break, ?t)"
    unfolding w n using run by (simp add: start_loop_by_state del: start_loop.simps)
  moreover have "unlogged ?t = unlogged (s\<lparr>calls := calls s @ replicate (Suc m) (state_query jid)\<rparr>)"
    using t by simp
  ultimately show ?thesis by blast
qed


lemma start_wait_exhausted:
  assumes id: "slurm_job_id s = Some jid" and ne: "jid \<noteq> []"
    and pend: "\<forall>i<15. job_state_of (reply sh (calls s) jid i) = PENDING"
  shows "\<exists>t. start_wait sh s = (Exhausted, t)
           \<and> unlogged t = unlogged (s\<lparr>calls := calls s @ replicate 16 (state_query jid)\<rparr>)"
proof -
  from start_wait_after_pending [OF id ne pend order_refl] obtain t where
    w: "start_wait sh s = start_loop sh (15 - 15) (reply sh (calls s) jid 15) t"
    and t: "unlogged t = unlogged (s\<lparr>calls := calls s @ replicate (Suc 15) (state_query jid)\<rparr>)"
    by blast
  have "start_wait sh s = (Exhausted, t)" using w by simp
  moreover have "Suc 15 = 16" by simp
  ultimately show ?thesis using t by metis
qed

lemma loop_terminal:
  assumes "0 < n" and "job_state_of out = TERMINAL"
  shows "\<exists>t. start_loop sh n out s = (Return 1, t) \<and> unlogged t = unlogged s"
proof -
  from assms(1) obtain n' where "n = Suc n'" by (cases n) auto
  then show ?thesis using assms(2) by (simp add: start_loop_by_state del: start_loop.simps)
qed

lemma start_wait_no_identifier:
  assumes "slurm_job_id s = Some []"
  shows "\<exists>t. start_wait sh s = (Return 1, t) \<and> unlogged t = unlogged s"
proof -
  have chk: "check_slurm_job_state sh s = ([], s)"
    using assms by (simp add: check_absent truthy_def)
  have w: "start_wait sh s = start_loop sh 15 [] s"
    using chk by (simp add: start_wait_def)
  have "job_state_of [] = TERMINAL" by (simp add: job_state_of_def)
  from loop_terminal [OF _ this, of 15 sh s] show ?thesis unfolding w by simp
qed

subsection \<open>Host resolution\<close>

lemma start_resolve_present:
  assumes "slurm_job_id t = Some jid"
  shows "\<exists>u. start_resolve sh t = (Inr None, u)
           \<and> unlogged u = unlogged (t\<lparr>calls := calls t @ [host_query jid,
                 name_resolution (node_name_of sh (calls t) jid)],
               server_ip := node_ip_of sh (calls t) jid\<rparr>)"
  using assms
  by (simp add: start_resolve_def get_slurm_job_info_def popen_def Let_def host_query_def
      name_resolution_def node_name_of_def node_ip_of_def)


subsection \<open>The submission\<close>

lemma emit_simps [simp]: "emit pre (Inr t) = Inr (pre @ t)" "emit pre (Inl e) = Inl e"
  by (simp_all add: emit_def)

lemma sbatch_script_split:
  assumes "split_char CHR '';'' c = export_cmd # c1 # rest"
  shows "sbatch_script c user = Inr (concat
    [''#!/bin/bash\<newline>'',
     ''#SBATCH --partition=all\<newline>'',
     ''#SBATCH --time=2:00:00\<newline>'',
     ''#SBATCH -o /home/'' @ user @ ''/jupyterhub_slurmspawner_%j.log\<newline>'',
     ''#SBATCH --job-name=spawner-jupyterhub\<newline>'',
     ''#SBATCH --workdir=/home/'' @ user @ ''\<newline>'',
     ''#SBATCH --mem=200\<newline>'',
     ''#SBATCH --uid='' @ user @ ''\<newline>'',
     ''#SBATCH --get-user-env=L\<newline>'',
     ''\<newline>'',
     ''which jupyterhub-singleuser\<newline>'',
     export_cmd @ ''\<newline>'',
     c1 @ ''\<newline>'',
     ''        ''])"
  using assms
  by (simp add: sbatch_script_def sbatch_template_def is_id_start_def is_id_char_def braced_def)

lemma sbatch_script_cases:
  "sbatch_script c user = Inl IndexError
   \<or> (\<exists>export_cmd c1 rest. split_char CHR '';'' c = export_cmd # c1 # rest)"
proof (cases "split_char CHR '';'' c")
  case Nil
  then show ?thesis by simp
next
  case (Cons a as)
  then show ?thesis by (cases as) (simp_all add: sbatch_script_def)
qed

lemma split_char_two:
  "x \<in> set s \<Longrightarrow> \<exists>a b rest. split_char x s = a # b # rest"
proof (induction s)
  case Nil
  then show ?case by simp
next
  case (Cons y ys)
  show ?case
  proof (cases "y = x")
    case True
    obtain t ts where "split_char x ys = t # ts"
      using split_char_not_Nil [of x ys] by (cases "split_char x ys") auto
    with True show ?thesis by simp
  next
    case False
    with Cons.prems have "x \<in> set ys" by simp
    from Cons.IH [OF this] obtain a b rest where "split_char x ys = a # b # rest" by blast
    with False show ?thesis by simp
  qed
qed

lemma py_join_head: "x \<in> set a \<Longrightarrow> x \<in> set (py_join sep (a # rest))"
  by (cases rest) simp_all

lemma py_in_concat: "d \<in> set ls \<Longrightarrow> py_in d (concat ls)"
proof -
  assume "d \<in> set ls"
  then obtain a b where "ls = a @ d # b" by (auto simp: in_set_conv_decomp)
  then have "concat ls = concat a @ d @ concat b" by simp
  then show ?thesis by (simp add: py_in_def sublist_appendI)
qed

lemma start_submit_ok:
  assumes "env s ''JPY_API_TOKEN'' = Some tok"
  shows "\<exists>s1. start_submit sh int_ok port s = Inr s1"
proof -
  let ?c1 = "(''export JPY_API_TOKEN='' @ [CHR 0x22] @ tok @ [CHR 0x22] @ '';'') # (cmd s @ args s)"
  have "CHR '';'' \<in> set (py_join '' '' ?c1)" by (rule py_join_head) simp
  from split_char_two [OF this] obtain a b rest where
    "split_char CHR '';'' (py_join '' '' ?c1) = a # b # rest" by blast
  from sbatch_script_split [OF this] obtain script where
    "sbatch_script (py_join '' '' ?c1) (user_name s) = Inr script" by blast
  then show ?thesis
    using assms
    by (simp add: start_submit_def run_jupyterhub_singleuser_def popen_def Let_def log_info_def)
qed

lemma start_submit_facts:
  assumes "start_submit sh int_ok port s = Inr s1"
  shows "\<exists>script. calls s1 = calls s @ [Invocation ''sbatch'' script]
     \<and> slurm_job_id s1 = Some (last (split_char CHR '' ''
          (strip bytes_isspace (sh (calls s) (Invocation ''sbatch'' script)))))"
  using assms
  by (auto simp: start_submit_def run_jupyterhub_singleuser_def popen_def Let_def log_info_def
      split: option.splits sum.splits prod.splits if_splits)

subsection \<open>start as a whole\<close>

lemma start_running:
  assumes sub: "start_submit sh int_ok port s = Inr s1"
    and id: "slurm_job_id s1 = Some jid" and ne: "jid \<noteq> []"
    and pend: "\<forall>i<m. job_state_of (reply sh (calls s1) jid i) = PENDING" and m: "m < 15"
    and run: "job_state_of (reply sh (calls s1) jid m) = RUNNING"
  shows "\<exists>u. start sh int_ok port s = (Inr None, u)
     \<and> unlogged u = unlogged (s1\<lparr>calls := calls s1 @ replicate (Suc m) (state_query jid)
            @ [host_query jid,
               name_resolution (node_name_of sh (calls s1 @ replicate (Suc m) (state_query jid)) jid)],
          server_ip := node_ip_of sh (calls s1 @ replicate (Suc m) (state_query jid)) jid\<rparr>)"
proof -
  from start_wait_running [OF id ne pend m run] obtain t where
    w: "start_wait sh s1 = (Break, t)"
    and t: "unlogged t = unlogged (s1\<lparr>calls := calls s1 @ replicate (Suc m) (state_query jid)\<rparr>)"
    by blast
  have tid: "slurm_job_id t = Some jid" using unlogged_eqD(2) [OF t] id by simp
  have tcalls: "calls t = calls s1 @ replicate (Suc m) (state_query jid)"
    using unlogged_eqD(1) [OF t] by simp
  from start_resolve_present [OF tid, of sh] obtain u where
    r: "start_resolve sh t = (Inr None, u)"
    and u: "unlogged u = unlogged (t\<lparr>calls := calls t @ [host_query jid,
                 name_resolution (node_name_of sh (calls t) jid)],
               server_ip := node_ip_of sh (calls t) jid\<rparr>)" by blast
  have "start sh int_ok port s = (Inr None, u)"
    using sub w r by (simp add: start_def)
  moreover have "unlogged u = unlogged (s1\<lparr>calls := calls s1 @ replicate (Suc m) (state_query jid)
            @ [host_query jid,
               name_resolution (node_name_of sh (calls s1 @ replicate (Suc m) (state_query jid)) jid)],
          server_ip := node_ip_of sh (calls s1 @ replicate (Suc m) (state_query jid)) jid\<rparr>)"
    using u t unfolding tcalls by simp
  ultimately show ?thesis by blast
qed

lemma start_exhausted:
  assumes sub: "start_submit sh int_ok port s = Inr s1"
    and id: "slurm_job_id s1 = Some jid" and ne: "jid \<noteq> []"
    and pend: "\<forall>i<15. job_state_of (reply sh (calls s1) jid i) = PENDING"
  shows "\<exists>u. start sh int_ok port s = (Inr None, u)
     \<and> unlogged u = unlogged (s1\<lparr>calls := calls s1 @ replicate 16 (state_query jid)
            @ [host_query jid,
               name_resolution (node_name_of sh (calls s1 @ replicate 16 (state_query jid)) jid)],
          server_ip := node_ip_of sh (calls s1 @ replicate 16 (state_query jid)) jid\<rparr>)"
proof -
  from start_wait_exhausted [OF id ne pend] obtain t where
    w: "start_wait sh s1 = (Exhausted, t)"
    and t: "unlogged t = unlogged (s1\<lparr>calls := calls s1 @ replicate 16 (state_query jid)\<rparr>)"
    by blast
  have tid: "slurm_job_id t = Some jid" using unlogged_eqD(2) [OF t] id by simp
  have tcalls: "calls t = calls s1 @ replicate 16 (state_query jid)"
    using unlogged_eqD(1) [OF t] by simp
  from start_resolve_present [OF tid, of sh] obtain u where
    r: "start_resolve sh t = (Inr None, u)"
    and u: "unlogged u = unlogged (t\<lparr>calls := calls t @ [host_query jid,
                 name_resolution (node_name_of sh (calls t) jid)],
               server_ip := node_ip_of sh (calls t) jid\<rparr>)" by blast
  have "start sh int_ok port s = (Inr None, u)"
    using sub w r by (simp add: start_def)
  moreover have "unlogged u = unlogged (s1\<lparr>calls := calls s1 @ replicate 16 (state_query jid)
            @ [host_query jid,
               name_resolution (node_name_of sh (calls s1 @ replicate 16 (state_query jid)) jid)],
          server_ip := node_ip_of sh (calls s1 @ replicate 16 (state_query jid)) jid\<rparr>)"
    using u t unfolding tcalls by simp
  ultimately show ?thesis by blast
qed


subsection \<open>Counting invocations and the stub\<close>

lemma count_list_replicate: "count_list (replicate n x) y = (if x = y then n else 0)"
  by (induction n) auto

lemma invocations_distinct [simp]:
  "state_query jid \<noteq> host_query jid" "host_query jid \<noteq> state_query jid"
  "name_resolution nd \<noteq> state_query jid" "state_query jid \<noteq> name_resolution nd"
  "name_resolution nd \<noteq> host_query jid" "host_query jid \<noteq> name_resolution nd"
  "Invocation ''sbatch'' script \<noteq> state_query jid"
  "state_query jid \<noteq> Invocation ''sbatch'' script"
  "Invocation ''sbatch'' script \<noteq> host_query jid"
  "host_query jid \<noteq> Invocation ''sbatch'' script"
  "scancel jid' \<noteq> state_query jid" "state_query jid \<noteq> scancel jid'"
  by (simp_all add: state_query_def host_query_def name_resolution_def scancel_def)

lemma stub_sbatch [simp]:
  "stub so st nd addr co h (Invocation ''sbatch'' script) = so"
  by (simp add: stub_def)

lemma stub_state_query:
  "stub so st nd addr co h (state_query jid) =
     (if count_list h (state_query jid) < length st then st ! count_list h (state_query jid) else [])"
proof -
  have "suffix '' -o %T'' (''squeue -h -j '' @ jid @ '' -o %T'')"
    by (metis append.assoc suffixI)
  then show ?thesis by (simp add: stub_def state_query_def Let_def)
qed

lemma stub_host_query:
  "stub so st nd addr co h (host_query jid) = nd"
  by (simp add: stub_def host_query_def suffix_to_prefix)

lemma stub_reply:
  "reply (stub so st nd addr co) [Invocation ''sbatch'' script] jid i =
     strip str_isspace (if i < length st then st ! i else [])"
  by (simp add: reply_def stub_state_query count_list_replicate)

text \<open>
  Claim C4. When the submission has stored a non-empty identifier and the scheduler answers
  the first three state queries with a PENDING state and the fourth with a RUNNING state,
  \<^verbatim>\<open>start\<close> returns \<^verbatim>\<open>None\<close> at the end of its body (success). After the submission it
  has run exactly four state queries, then the host query and the name resolution, and
  nothing else; the address is stored and the identifier kept.
\<close>

theorem start_three_pending_then_running:
  assumes sub: "start_submit sh int_ok port s = Inr s1"
    and id: "slurm_job_id s1 = Some jid" and ne: "jid \<noteq> []"
    and pend: "\<forall>i<3. job_state_of (reply sh (calls s1) jid i) = PENDING"
    and run: "job_state_of (reply sh (calls s1) jid 3) = RUNNING"
  shows "fst (start sh int_ok port s) = Inr None
     \<and> calls (snd (start sh int_ok port s)) =
         calls s1 @ replicate 4 (state_query jid)
           @ [host_query jid,
              name_resolution (node_name_of sh (calls s1 @ replicate 4 (state_query jid)) jid)]
     \<and> count_list (drop (length (calls s)) (calls (snd (start sh int_ok port s))))
         (state_query jid) = 4
     \<and> count_list (drop (length (calls s)) (calls (snd (start sh int_ok port s))))
         (host_query jid) = 1
     \<and> server_ip (snd (start sh int_ok port s)) =
         node_ip_of sh (calls s1 @ replicate 4 (state_query jid)) jid
     \<and> slurm_job_id (snd (start sh int_ok port s)) = Some jid"
proof -
  have m: "(3::nat) < 15" by simp
  from start_running [OF sub id ne pend m run] obtain u where
    st: "start sh int_ok port s = (Inr None, u)"
    and u: "unlogged u = unlogged (s1\<lparr>calls := calls s1 @ replicate (Suc 3) (state_query jid)
            @ [host_query jid,
               name_resolution (node_name_of sh (calls s1 @ replicate (Suc 3) (state_query jid)) jid)],
          server_ip := node_ip_of sh (calls s1 @ replicate (Suc 3) (state_query jid)) jid\<rparr>)"
    by blast
  have four: "Suc 3 = 4" by simp
  from start_submit_facts [OF sub] obtain script where
    s1: "calls s1 = calls s @ [Invocation ''sbatch'' script]" by blast
  have c: "calls u = calls s1 @ replicate 4 (state_query jid)
           @ [host_query jid,
              name_resolution (node_name_of sh (calls s1 @ replicate 4 (state_query jid)) jid)]"
    using unlogged_eqD(1) [OF u] unfolding four by simp
  have i: "server_ip u = node_ip_of sh (calls s1 @ replicate 4 (state_query jid)) jid"
    using unlogged_eqD(4) [OF u] unfolding four by simp
  have j: "slurm_job_id u = Some jid" using unlogged_eqD(2) [OF u] id by simp
  have n1: "count_list (drop (length (calls s)) (calls u)) (state_query jid) = 4"
    unfolding c s1 by (simp add: count_list_replicate)
  have n2: "count_list (drop (length (calls s)) (calls u)) (host_query jid) = 1"
    unfolding c s1 by (simp add: count_list_replicate)
  show ?thesis using st c i j n1 n2 by simp
qed

lemma strip_eval:
  "strip str_isspace ''PENDING\<newline>'' = ''PENDING''"
  "strip str_isspace ''RUNNING\<newline>'' = ''RUNNING''"
  "strip bytes_isspace ''Submitted batch job 209\<newline>'' = ''Submitted batch job 209''"
  "strip bytes_isspace ''node1\<newline>'' = ''node1''"
  "strip bytes_isspace ''node1 has address 10.0.0.1\<newline>'' = ''node1 has address 10.0.0.1''"
  by (simp_all add: strip_def str_isspace_def bytes_isspace_def)

theorem start_three_pending_then_running_witness:
  "fst (start stub_running4 digits 8888 alice) = Inr None
   \<and> map command (calls (snd (start stub_running4 digits 8888 alice))) =
       [''sbatch'', ''squeue -h -j 209 -o %T'', ''squeue -h -j 209 -o %T'',
        ''squeue -h -j 209 -o %T'', ''squeue -h -j 209 -o %T'',
        ''squeue -h -j 209 -o %N'', ''host node1'']
   \<and> server_ip (snd (start stub_running4 digits 8888 alice)) = ''10.0.0.1''"
proof -
  have tok: "env alice ''JPY_API_TOKEN'' = Some ''tok''" by (simp add: alice_def)
  from start_submit_ok [OF tok] obtain s1 where
    sub: "start_submit stub_running4 digits 8888 alice = Inr s1" by blast
  from start_submit_facts [OF sub] obtain script where
    c1: "calls s1 = [Invocation ''sbatch'' script]"
    and j1: "slurm_job_id s1 = Some (last (split_char CHR '' ''
          (strip bytes_isspace (stub_running4 (calls alice) (Invocation ''sbatch'' script)))))"
    by (auto simp: alice_def)
  have id: "slurm_job_id s1 = Some ''209''"
    unfolding j1 by (simp add: stub_running4_def strip_eval)
  have ne: "''209'' \<noteq> []" by simp
  have pend: "\<forall>i<3. job_state_of (reply stub_running4 (calls s1) ''209'' i) = PENDING"
  proof (intro allI impI)
    fix i :: nat
    assume "i < 3"
    then consider "i = 0" | "i = 1" | "i = 2" by linarith
    then show "job_state_of (reply stub_running4 (calls s1) ''209'' i) = PENDING"
      unfolding c1 stub_running4_def stub_reply
      by cases (simp_all add: strip_eval job_state_of_def py_in_Cons)
  qed
  have run: "job_state_of (reply stub_running4 (calls s1) ''209'' 3) = RUNNING"
    unfolding c1 stub_running4_def stub_reply by (simp add: strip_eval job_state_of_def py_in_Cons)
  have nd: "node_name_of stub_running4 h ''209'' = ''node1''" for h
    by (simp add: node_name_of_def stub_running4_def stub_host_query strip_eval)
  have ip: "node_ip_of stub_running4 h ''209'' = ''10.0.0.1''" for h
    unfolding node_ip_of_def nd
    by (simp add: stub_running4_def stub_def name_resolution_def strip_eval suffix_to_prefix)
  from start_three_pending_then_running [OF sub id ne pend run]
  show ?thesis
    unfolding nd ip c1
    by (simp add: state_query_def host_query_def name_resolution_def eval_nat_numeral)
qed

subsection \<open>Runs on the stub\<close>

lemma alice_submit:
  "\<exists>s1 script. start_submit (stub ''Submitted batch job 209\<newline>'' st nd addr co) digits 8888 alice
       = Inr s1
     \<and> calls s1 = [Invocation ''sbatch'' script] \<and> slurm_job_id s1 = Some ''209''"
proof -
  let ?sh = "stub ''Submitted batch job 209\<newline>'' st nd addr co"
  have tok: "env alice ''JPY_API_TOKEN'' = Some ''tok''" by (simp add: alice_def)
  from start_submit_ok [OF tok] obtain s1 where
    sub: "start_submit ?sh digits 8888 alice = Inr s1" by blast
  from start_submit_facts [OF sub] obtain script where
    c1: "calls s1 = [Invocation ''sbatch'' script]"
    and j1: "slurm_job_id s1 = Some (last (split_char CHR '' ''
          (strip bytes_isspace (?sh (calls alice) (Invocation ''sbatch'' script)))))"
    by (auto simp: alice_def)
  have "slurm_job_id s1 = Some ''209''" unfolding j1 by (simp add: strip_eval)
  with sub c1 show ?thesis by blast
qed

subsection \<open>Fifteen pending replies\<close>

text \<open>
  Claim C1, as amended. When the submission has stored a non-empty identifier and the
  scheduler answers fifteen consecutive state queries with a PENDING state, \<^verbatim>\<open>start\<close> does
  not go on polling: it runs exactly one more state query, sixteen in all, and no state
  query after these. It does not clear the identifier, which stays the one parsed from the
  output of the submission. (\<^verbatim>\<open>start\<close> is a total function: the loop is a recursion over its
  fifteen iterations.)
\<close>

theorem start_fifteen_pending:
  assumes sub: "start_submit sh int_ok port s = Inr s1"
    and id: "slurm_job_id s1 = Some jid" and ne: "jid \<noteq> []"
    and pend: "\<forall>i<15. job_state_of (reply sh (calls s1) jid i) = PENDING"
  shows "(\<exists>rest. calls (snd (start sh int_ok port s)) =
             calls s1 @ replicate 16 (state_query jid) @ rest
           \<and> state_query jid \<notin> set rest)
     \<and> count_list (drop (length (calls s)) (calls (snd (start sh int_ok port s))))
         (state_query jid) = 16
     \<and> slurm_job_id (snd (start sh int_ok port s)) = Some jid"
proof -
  from start_exhausted [OF sub id ne pend] obtain u where
    st: "start sh int_ok port s = (Inr None, u)"
    and u: "unlogged u = unlogged (s1\<lparr>calls := calls s1 @ replicate 16 (state_query jid)
            @ [host_query jid,
               name_resolution (node_name_of sh (calls s1 @ replicate 16 (state_query jid)) jid)],
          server_ip := node_ip_of sh (calls s1 @ replicate 16 (state_query jid)) jid\<rparr>)"
    by blast
  let ?rest = "[host_query jid,
     name_resolution (node_name_of sh (calls s1 @ replicate 16 (state_query jid)) jid)]"
  from start_submit_facts [OF sub] obtain script where
    s1: "calls s1 = calls s @ [Invocation ''sbatch'' script]" by blast
  have c: "calls u = calls s1 @ replicate 16 (state_query jid) @ ?rest"
    using unlogged_eqD(1) [OF u] by simp
  have r: "state_query jid \<notin> set ?rest"
    by simp
  have n: "count_list (drop (length (calls s)) (calls u)) (state_query jid) = 16"
    unfolding c s1 by (simp add: count_list_replicate)
  have j: "slurm_job_id u = Some jid" using unlogged_eqD(2) [OF u] id by simp
  show ?thesis using st c r n j by auto
qed

theorem start_fifteen_pending_witness:
  "count_list (calls (snd (start stub_pending15 digits 8888 alice)))
     (state_query ''209'') = 16
   \<and> slurm_job_id (snd (start stub_pending15 digits 8888 alice)) = Some ''209''"
proof -
  from alice_submit [of "replicate 15 ''PENDING\<newline>''" "[]" "[]" "[]"] obtain s1 script where
    sub: "start_submit stub_pending15 digits 8888 alice = Inr s1"
    and c1: "calls s1 = [Invocation ''sbatch'' script]"
    and id: "slurm_job_id s1 = Some ''209''"
    unfolding stub_pending15_def by blast
  have ne: "''209'' \<noteq> []" by simp
  have pend: "\<forall>i<15. job_state_of (reply stub_pending15 (calls s1) ''209'' i) = PENDING"
    unfolding c1 stub_pending15_def stub_reply
    by (simp add: strip_eval job_state_of_def py_in_Cons)
  from start_fifteen_pending [OF sub id ne pend]
  show ?thesis by (simp add: alice_def)
qed

lemma pending15_run:
  "fst (start stub_pending15 digits 8888 alice) = Inr None
   \<and> map command (calls (snd (start stub_pending15 digits 8888 alice))) =
       ''sbatch'' # replicate 16 ''squeue -h -j 209 -o %T''
         @ [''squeue -h -j 209 -o %N'', ''host '']
   \<and> slurm_job_id (snd (start stub_pending15 digits 8888 alice)) = Some ''209''"
proof -
  from alice_submit [of "replicate 15 ''PENDING\<newline>''" "[]" "[]" "[]"] obtain s1 script where
    sub: "start_submit stub_pending15 digits 8888 alice = Inr s1"
    and c1: "calls s1 = [Invocation ''sbatch'' script]"
    and id: "slurm_job_id s1 = Some ''209''"
    unfolding stub_pending15_def by blast
  have ne: "''209'' \<noteq> []" by simp
  have pend: "\<forall>i<15. job_state_of (reply stub_pending15 (calls s1) ''209'' i) = PENDING"
    unfolding c1 stub_pending15_def stub_reply
    by (simp add: strip_eval job_state_of_def py_in_Cons)
  have nd: "node_name_of stub_pending15 h ''209'' = []" for h
    by (simp add: node_name_of_def stub_pending15_def stub_host_query strip_def)
  from start_exhausted [OF sub id ne pend] obtain u where
    st: "start stub_pending15 digits 8888 alice = (Inr None, u)"
    and u: "unlogged u = unlogged (s1\<lparr>calls := calls s1 @ replicate 16 (state_query ''209'')
            @ [host_query ''209'',
               name_resolution (node_name_of stub_pending15
                 (calls s1 @ replicate 16 (state_query ''209'')) ''209'')],
          server_ip := node_ip_of stub_pending15
             (calls s1 @ replicate 16 (state_query ''209'')) ''209''\<rparr>)"
    by blast
  have c: "calls u = calls s1 @ replicate 16 (state_query ''209'')
            @ [host_query ''209'', name_resolution []]"
    using unlogged_eqD(1) [OF u] unfolding nd by simp
  have j: "slurm_job_id u = Some ''209''" using unlogged_eqD(2) [OF u] id by simp
  show ?thesis
    unfolding st using c j c1
    by (simp add: state_query_def host_query_def name_resolution_def)
qed

text \<open>The claim as stated fails: after fifteen pending replies \<^verbatim>\<open>start\<close> returns \<^verbatim>\<open>None\<close> as it
  does on success, it has asked for the host and resolved the (empty) node name, and the
  identifier is still the submitted one.\<close>

theorem start_fifteen_pending_counterexample:
  "fst (start stub_pending15 digits 8888 alice) = Inr None
   \<and> map command (calls (snd (start stub_pending15 digits 8888 alice))) =
       ''sbatch'' # replicate 16 ''squeue -h -j 209 -o %T''
         @ [''squeue -h -j 209 -o %N'', ''host '']
   \<and> slurm_job_id (snd (start stub_pending15 digits 8888 alice)) = Some ''209''
   \<and> slurm_job_id (snd (start stub_pending15 digits 8888 alice)) \<noteq> Some []"
  using pending15_run by simp

subsection \<open>A reply that is neither running nor pending\<close>




subsection \<open>The defaults of the submission script\<close>

text \<open>
  Claim C8. For every user name and every command from which a script is generated (one
  with a semicolon, as every command line that \<^verbatim>\<open>start\<close> builds), the script contains the
  directive lines with the fixed defaults: partition \<^verbatim>\<open>all\<close>, memory \<^verbatim>\<open>200\<close>, time
  \<^verbatim>\<open>2:00:00\<close>, the log path under the user's home, the job name \<^verbatim>\<open>spawner-jupyterhub\<close>, the
  user's home as working directory and \<^verbatim>\<open>--get-user-env=L\<close>. The script begins with the
  interpreter line and these directives, in the order of the template.
\<close>

theorem sbatch_script_defaults:
  assumes "sbatch_script c user = Inr script"
  shows "py_in ''#SBATCH --partition=all\<newline>'' script
     \<and> py_in ''#SBATCH --mem=200\<newline>'' script
     \<and> py_in ''#SBATCH --time=2:00:00\<newline>'' script
     \<and> py_in (''#SBATCH -o /home/'' @ user @ ''/jupyterhub_slurmspawner_%j.log\<newline>'') script
     \<and> py_in ''#SBATCH --job-name=spawner-jupyterhub\<newline>'' script
     \<and> py_in (''#SBATCH --workdir=/home/'' @ user @ ''\<newline>'') script
     \<and> py_in ''#SBATCH --get-user-env=L\<newline>'' script
     \<and> prefix (concat
          [''#!/bin/bash\<newline>'',
           ''#SBATCH --partition=all\<newline>'',
           ''#SBATCH --time=2:00:00\<newline>'',
           ''#SBATCH -o /home/'' @ user @ ''/jupyterhub_slurmspawner_%j.log\<newline>'',
           ''#SBATCH --job-name=spawner-jupyterhub\<newline>'',
           ''#SBATCH --workdir=/home/'' @ user @ ''\<newline>'',
           ''#SBATCH --mem=200\<newline>'',
           ''#SBATCH --uid='' @ user @ ''\<newline>'',
           ''#SBATCH --get-user-env=L\<newline>'']) script"
proof -
  from sbatch_script_cases [of c user] assms obtain export_cmd c1 rest where
    "split_char CHR '';'' c = export_cmd # c1 # rest" by auto
  from sbatch_script_split [OF this, of user] assms
  have script: "script = concat
    [''#!/bin/bash\<newline>'',
     ''#SBATCH --partition=all\<newline>'',
     ''#SBATCH --time=2:00:00\<newline>'',
     ''#SBATCH -o /home/'' @ user @ ''/jupyterhub_slurmspawner_%j.log\<newline>'',
     ''#SBATCH --job-name=spawner-jupyterhub\<newline>'',
     ''#SBATCH --workdir=/home/'' @ user @ ''\<newline>'',
     ''#SBATCH --mem=200\<newline>'',
     ''#SBATCH --uid='' @ user @ ''\<newline>'',
     ''#SBATCH --get-user-env=L\<newline>'',
     ''\<newline>'',
     ''which jupyterhub-singleuser\<newline>'',
     export_cmd @ ''\<newline>'',
     c1 @ ''\<newline>'',
     ''        '']" (is "_ = concat ?ls")
    by simp
  have 1: "py_in ''#SBATCH --partition=all\<newline>'' script"
    unfolding script by (rule py_in_concat) simp
  have 2: "py_in ''#SBATCH --mem=200\<newline>'' script"
    unfolding script by (rule py_in_concat) simp
  have 3: "py_in ''#SBATCH --time=2:00:00\<newline>'' script"
    unfolding script by (rule py_in_concat) simp
  have 4: "py_in (''#SBATCH -o /home/'' @ user @ ''/jupyterhub_slurmspawner_%j.log\<newline>'') script"
    unfolding script by (rule py_in_concat) simp
  have 5: "py_in ''#SBATCH --job-name=spawner-jupyterhub\<newline>'' script"
    unfolding script by (rule py_in_concat) simp
  have 6: "py_in (''#SBATCH --workdir=/home/'' @ user @ ''\<newline>'') script"
    unfolding script by (rule py_in_concat) simp
  have 7: "py_in ''#SBATCH --get-user-env=L\<newline>'' script"
    unfolding script by (rule py_in_concat) simp
  have 8: "prefix (concat
          [''#!/bin/bash\<newline>'',
           ''#SBATCH --partition=all\<newline>'',
           ''#SBATCH --time=2:00:00\<newline>'',
           ''#SBATCH -o /home/'' @ user @ ''/jupyterhub_slurmspawner_%j.log\<newline>'',
           ''#SBATCH --job-name=spawner-jupyterhub\<newline>'',
           ''#SBATCH --workdir=/home/'' @ user @ ''\<newline>'',
           ''#SBATCH --mem=200\<newline>'',
           ''#SBATCH --uid='' @ user @ ''\<newline>'',
           ''#SBATCH --get-user-env=L\<newline>'']) script"
    unfolding script by simp
  from 1 2 3 4 5 6 7 8 show ?thesis by blast
qed

theorem sbatch_script_defaults_witness:
  "(case sbatch_script ''export X=1;run.sh'' ''alice'' of
      Inl e \<Rightarrow> False
    | Inr script \<Rightarrow>
        py_in ''#SBATCH --partition=all\<newline>'' script
        \<and> py_in ''#SBATCH --mem=200\<newline>'' script
        \<and> py_in ''#SBATCH --time=2:00:00\<newline>'' script
        \<and> py_in ''#SBATCH -o /home/alice/jupyterhub_slurmspawner_%j.log\<newline>'' script
        \<and> py_in ''#SBATCH --job-name=spawner-jupyterhub\<newline>'' script
        \<and> py_in ''#SBATCH --workdir=/home/alice\<newline>'' script
        \<and> py_in ''#SBATCH --get-user-env=L\<newline>'' script)"
proof -
  have "split_char CHR '';'' ''export X=1;run.sh'' = [''export X=1'', ''run.sh'']" by simp
  from sbatch_script_split [OF this, of "''alice''"] obtain script where
    s: "sbatch_script ''export X=1;run.sh'' ''alice'' = Inr script" by blast
  from sbatch_script_defaults [OF s] show ?thesis unfolding s by simp
qed

subsection \<open>What the log cannot influence\<close>

lemma check_unlogged:
  assumes "unlogged s = unlogged t"
  shows "fst (check_slurm_job_state sh s) = fst (check_slurm_job_state sh t)
     \<and> unlogged (snd (check_slurm_job_state sh s)) = unlogged (snd (check_slurm_job_state sh t))"
proof -
  have c: "calls s = calls t" and j: "slurm_job_id s = slurm_job_id t"
    using unlogged_eqD(1,2) [OF assms] by simp_all
  show ?thesis
    using assms
    by (simp add: check_slurm_job_state_def run_command_def popen_def Let_def c j
        split: option.splits)
qed

lemma loop_unlogged:
  "unlogged s = unlogged t \<Longrightarrow>
     fst (start_loop sh n out s) = fst (start_loop sh n out t)
     \<and> unlogged (snd (start_loop sh n out s)) = unlogged (snd (start_loop sh n out t))"
proof (induction n arbitrary: out s t)
  case 0
  then show ?case by simp
next
  case (Suc n)
  let ?s = "log_info (''job_state is '' @ out) s" and ?t = "log_info (''job_state is '' @ out) t"
  have st: "unlogged ?s = unlogged ?t" using Suc.prems by simp
  have j: "slurm_job_id s = slurm_job_id t" using unlogged_eqD(2) [OF Suc.prems] .
  show ?case
  proof (cases "job_state_of out")
    case RUNNING
    then show ?thesis using st by (simp add: start_loop_by_state del: start_loop.simps)
  next
    case PENDING
    obtain o1 s2 where a: "check_slurm_job_state sh ?s = (o1, s2)" by (cases "check_slurm_job_state sh ?s")
    obtain o2 t2 where b: "check_slurm_job_state sh ?t = (o2, t2)" by (cases "check_slurm_job_state sh ?t")
    from check_unlogged [OF st, of sh] a b have "o1 = o2" and "unlogged s2 = unlogged t2"
      by simp_all
    with Suc.IH [of s2 t2 o2] PENDING a b show ?thesis
      by (simp add: start_loop_by_state del: start_loop.simps)
  next
    case TERMINAL
    then show ?thesis using st j by (simp add: start_loop_by_state del: start_loop.simps)
  qed
qed

lemma start_wait_unlogged:
  assumes "unlogged s = unlogged t"
  shows "fst (start_wait sh s) = fst (start_wait sh t)
     \<and> unlogged (snd (start_wait sh s)) = unlogged (snd (start_wait sh t))"
proof -
  obtain o1 s2 where a: "check_slurm_job_state sh s = (o1, s2)" by (cases "check_slurm_job_state sh s")
  obtain o2 t2 where b: "check_slurm_job_state sh t = (o2, t2)" by (cases "check_slurm_job_state sh t")
  from check_unlogged [OF assms, of sh] a b have "o1 = o2" and "unlogged s2 = unlogged t2"
    by simp_all
  with loop_unlogged [of s2 t2 sh 15 o2] a b show ?thesis by (simp add: start_wait_def)
qed

lemma start_resolve_unlogged:
  assumes "unlogged s = unlogged t"
  shows "fst (start_resolve sh s) = fst (start_resolve sh t)
     \<and> unlogged (snd (start_resolve sh s)) = unlogged (snd (start_resolve sh t))"
proof -
  have c: "calls s = calls t" and j: "slurm_job_id s = slurm_job_id t"
    using unlogged_eqD(1,2) [OF assms] by simp_all
  show ?thesis
    using assms
    by (simp add: start_resolve_def get_slurm_job_info_def popen_def Let_def c j
        split: option.splits)
qed

lemma start_submit_int_ok:
  "(\<exists>e t. start_submit sh p port s = Inl (e, t) \<and> start_submit sh p' port s = Inl (e, t))
   \<or> (\<exists>s1 s2. start_submit sh p port s = Inr s1 \<and> start_submit sh p' port s = Inr s2
         \<and> unlogged s1 = unlogged s2)"
proof (cases "env s ''JPY_API_TOKEN''")
  case None
  then show ?thesis by (simp add: start_submit_def Let_def log_info_def)
next
  case (Some tok)
  let ?s2 = "log_info (''Spawning '' @ py_join '' '' (cmd s @ args s)) (s\<lparr>server_port := port\<rparr>)"
  let ?c1 = "(''export JPY_API_TOKEN='' @ [CHR 0x22] @ tok @ [CHR 0x22] @ '';'') # (cmd s @ args s)"
  obtain r s3 where run: "run_jupyterhub_singleuser sh (py_join '' '' ?c1) (user_name s) ?s2 = (r, s3)"
    by (cases "run_jupyterhub_singleuser sh (py_join '' '' ?c1) (user_name s) ?s2")
  show ?thesis
  proof (cases r)
    case (Inl e)
    with Some run show ?thesis by (simp add: start_submit_def Let_def log_info_def)
  next
    case (Inr outp)
    with Some run show ?thesis by (simp add: start_submit_def Let_def log_info_def unlogged_def)
  qed
qed

lemma start_after_submit_unlogged:
  assumes a: "start_submit sh p port s = Inr s1" and b: "start_submit sh p' port s = Inr s2"
    and u: "unlogged s1 = unlogged s2"
  shows "fst (start sh p port s) = fst (start sh p' port s)
     \<and> unlogged (snd (start sh p port s)) = unlogged (snd (start sh p' port s))"
proof -
  obtain x1 t1 where w1: "start_wait sh s1 = (x1, t1)" by (cases "start_wait sh s1")
  obtain x2 t2 where w2: "start_wait sh s2 = (x2, t2)" by (cases "start_wait sh s2")
  from start_wait_unlogged [OF u, of sh] w1 w2 have x: "x1 = x2" and t: "unlogged t1 = unlogged t2"
    by simp_all
  show ?thesis
    using a b w1 w2 x t start_resolve_unlogged [OF t, of sh]
    by (cases x2) (simp_all add: start_def)
qed

lemma start_int_ok_unlogged:
  "fst (start sh p port s) = fst (start sh p' port s)
   \<and> unlogged (snd (start sh p port s)) = unlogged (snd (start sh p' port s))"
proof -
  from start_submit_int_ok [of sh p port s p'] show ?thesis
  proof
    assume "\<exists>e t. start_submit sh p port s = Inl (e, t) \<and> start_submit sh p' port s = Inl (e, t)"
    then show ?thesis by (auto simp: start_def)
  next
    assume "\<exists>s1 s2. start_submit sh p port s = Inr s1 \<and> start_submit sh p' port s = Inr s2
         \<and> unlogged s1 = unlogged s2"
    then show ?thesis using start_after_submit_unlogged by blast
  qed
qed

subsection \<open>The identifier and the trace only grow after the submission\<close>

lemma check_keeps:
  "slurm_job_id (snd (check_slurm_job_state sh s)) = slurm_job_id s
   \<and> (\<exists>rest. calls (snd (check_slurm_job_state sh s)) = calls s @ rest)"
  by (simp add: check_slurm_job_state_def run_command_def popen_def Let_def split: option.splits)

lemma loop_keeps:
  "slurm_job_id (snd (start_loop sh n out s)) = slurm_job_id s
   \<and> (\<exists>rest. calls (snd (start_loop sh n out s)) = calls s @ rest)"
proof (induction n arbitrary: out s)
  case 0
  then show ?case by simp
next
  case (Suc n)
  let ?s = "log_info (''job_state is '' @ out) s"
  show ?case
  proof (cases "job_state_of out")
    case PENDING
    obtain o1 s2 where a: "check_slurm_job_state sh ?s = (o1, s2)"
      by (cases "check_slurm_job_state sh ?s")
    from check_keeps [of sh ?s] a obtain r1 where
      "slurm_job_id s2 = slurm_job_id s" and "calls s2 = calls s @ r1" by auto
    moreover from Suc.IH [of o1 s2] obtain r2 where
      "slurm_job_id (snd (start_loop sh n o1 s2)) = slurm_job_id s2"
      and "calls (snd (start_loop sh n o1 s2)) = calls s2 @ r2" by blast
    ultimately show ?thesis
      using PENDING a by (simp add: start_loop_by_state del: start_loop.simps)
  qed (simp_all add: start_loop_by_state del: start_loop.simps)
qed

lemma start_resolve_keeps:
  "slurm_job_id (snd (start_resolve sh s)) = slurm_job_id s
   \<and> (\<exists>rest. calls (snd (start_resolve sh s)) = calls s @ rest)"
  by (simp add: start_resolve_def get_slurm_job_info_def popen_def Let_def log_info_def
      split: option.splits)

lemma start_keeps:
  assumes sub: "start_submit sh p port s = Inr s1"
  shows "slurm_job_id (snd (start sh p port s)) = slurm_job_id s1"
    and "slurm_job_id s1 = Some j \<Longrightarrow> j \<noteq> [] \<Longrightarrow>
           \<exists>rest. calls (snd (start sh p port s)) = calls s1 @ state_query j # rest"
proof -
  obtain o1 s2 where a: "check_slurm_job_state sh s1 = (o1, s2)"
    by (cases "check_slurm_job_state sh s1")
  obtain x t where l: "start_loop sh 15 o1 s2 = (x, t)" by (cases "start_loop sh 15 o1 s2")
  have w: "start_wait sh s1 = (x, t)" using a l by (simp add: start_wait_def)
  from check_keeps [of sh s1] a have s2: "slurm_job_id s2 = slurm_job_id s1" by simp
  from loop_keeps [of sh 15 o1 s2] l obtain r2 where
    t: "slurm_job_id t = slurm_job_id s2" and tc: "calls t = calls s2 @ r2" by auto
  from start_resolve_keeps [of sh t] obtain r3 where
    u: "slurm_job_id (snd (start_resolve sh t)) = slurm_job_id t"
    and uc: "calls (snd (start_resolve sh t)) = calls t @ r3" by blast
  show "slurm_job_id (snd (start sh p port s)) = slurm_job_id s1"
    using sub w s2 t u by (cases x) (simp_all add: start_def)
  assume j: "slurm_job_id s1 = Some j" and ne: "j \<noteq> []"
  from check_present [OF j ne, of sh] a
  have "unlogged s2 = unlogged (s1\<lparr>calls := calls s1 @ [state_query j]\<rparr>)" by simp
  from unlogged_eqD(1) [OF this] have "calls s2 = calls s1 @ [state_query j]" by simp
  then show "\<exists>rest. calls (snd (start sh p port s)) = calls s1 @ state_query j # rest"
    using sub w tc uc by (cases x) (simp_all add: start_def)
qed

subsection \<open>The log only grows\<close>

lemma check_log_grows:
  "\<exists>more. logged (snd (check_slurm_job_state sh s)) = logged s @ more"
  by (simp add: check_slurm_job_state_def run_command_def popen_def Let_def log_info_def
      split: option.splits)

lemma loop_log_grows:
  "\<exists>more. logged (snd (start_loop sh n out s)) = logged s @ more"
proof (induction n arbitrary: out s)
  case 0
  then show ?case by simp
next
  case (Suc n)
  let ?s = "log_info (''job_state is '' @ out) s"
  show ?case
  proof (cases "job_state_of out")
    case PENDING
    obtain o1 s2 where a: "check_slurm_job_state sh ?s = (o1, s2)"
      by (cases "check_slurm_job_state sh ?s")
    from check_log_grows [of sh ?s] a obtain m1 where "logged s2 = logged ?s @ m1" by auto
    moreover from Suc.IH [of o1 s2] obtain m2 where
      "logged (snd (start_loop sh n o1 s2)) = logged s2 @ m2" by blast
    ultimately show ?thesis
      using PENDING a by (simp add: start_loop_by_state log_info_def del: start_loop.simps)
  qed (simp_all add: start_loop_by_state log_info_def del: start_loop.simps)
qed

lemma start_resolve_log_grows:
  "\<exists>more. logged (snd (start_resolve sh s)) = logged s @ more"
  by (simp add: start_resolve_def get_slurm_job_info_def popen_def Let_def log_info_def
      split: option.splits)

lemma start_log_grows:
  assumes sub: "start_submit sh p port s = Inr s1"
  shows "\<exists>more. logged (snd (start sh p port s)) = logged s1 @ more"
proof -
  obtain o1 s2 where a: "check_slurm_job_state sh s1 = (o1, s2)"
    by (cases "check_slurm_job_state sh s1")
  obtain x t where l: "start_loop sh 15 o1 s2 = (x, t)" by (cases "start_loop sh 15 o1 s2")
  have w: "start_wait sh s1 = (x, t)" using a l by (simp add: start_wait_def)
  from check_log_grows [of sh s1] a obtain m1 where m1: "logged s2 = logged s1 @ m1" by auto
  from loop_log_grows [of sh 15 o1 s2] l obtain m2 where m2: "logged t = logged s2 @ m2" by auto
  from start_resolve_log_grows [of sh t] obtain m3 where
    m3: "logged (snd (start_resolve sh t)) = logged t @ m3" by blast
  show ?thesis using sub w m1 m2 m3 by (cases x) (simp_all add: start_def)
qed

subsection \<open>Fields separated by spaces and tokens separated by white space\<close>

lemma split_char_none: "c \<notin> set s \<Longrightarrow> split_char c s = [s]"
  by (induction s) auto

lemma split_char_last:
  "c \<notin> set t \<Longrightarrow> last (split_char c (p @ c # t)) = t"
proof (induction p)
  case Nil
  then show ?case by (simp add: split_char_none)
next
  case (Cons x p)
  have "c \<in> set (p @ c # t)" by simp
  from split_char_two [OF this] obtain a b rest where
    sp: "split_char c (p @ c # t) = a # b # rest" by blast
  with Cons show ?case by (cases "x = c") auto
qed

lemma strip_decompose:
  "\<exists>pre post. s = pre @ strip sp s @ post \<and> (\<forall>x\<in>set pre. sp x) \<and> (\<forall>x\<in>set post. sp x)"
proof -
  let ?a = "dropWhile sp s"
  have 1: "s = takeWhile sp s @ ?a" by simp
  have "rev (dropWhile sp (rev ?a)) @ rev (takeWhile sp (rev ?a))
      = rev (takeWhile sp (rev ?a) @ dropWhile sp (rev ?a))" by (simp only: rev_append)
  also have "\<dots> = rev (rev ?a)" by (simp only: takeWhile_dropWhile_id)
  also have "\<dots> = ?a" by simp
  finally have 2: "?a = strip sp s @ rev (takeWhile sp (rev ?a))"
    by (simp add: strip_def)
  have 3: "\<forall>x\<in>set (takeWhile sp s). sp x" by (auto dest: set_takeWhileD)
  have 4: "\<forall>x\<in>set (rev (takeWhile sp (rev ?a))). sp x" by (auto dest: set_takeWhileD)
  from 1 2 have "s = takeWhile sp s @ strip sp s @ rev (takeWhile sp (rev ?a))" by simp
  with 3 4 show ?thesis by blast
qed

lemma strip_last: "strip sp s \<noteq> [] \<Longrightarrow> \<not> sp (last (strip sp s))"
proof -
  assume ne: "strip sp s \<noteq> []"
  let ?d = "dropWhile sp (rev (dropWhile sp s))"
  from ne have d: "?d \<noteq> []" by (simp add: strip_def)
  then have "\<not> sp (hd ?d)" by (rule hd_dropWhile)
  moreover have "last (strip sp s) = hd ?d" using d by (simp add: strip_def last_rev)
  ultimately show ?thesis by simp
qed

lemma last_token_spaces:
  assumes only: "\<forall>ch\<in>set (strip bytes_isspace raw). str_isspace ch \<longrightarrow> ch = CHR '' ''"
  shows "last (split_char CHR '' '' (strip bytes_isspace raw)) = last_whitespace_token raw"
proof -
  define out where "out = strip bytes_isspace raw"
  from strip_decompose [of raw bytes_isspace] obtain pre post where
    raw: "raw = pre @ out @ post"
    and pre: "\<forall>x\<in>set pre. bytes_isspace x" and post: "\<forall>x\<in>set post. bytes_isspace x"
    unfolding out_def by blast
  have only': "\<forall>ch\<in>set out. str_isspace ch \<longrightarrow> ch = CHR '' ''"
    using only unfolding out_def .
  have pre': "\<forall>x\<in>set (rev pre). str_isspace x" using pre by (simp add: str_isspace_def)
  have post': "\<forall>x\<in>set (rev post). str_isspace x" using post by (simp add: str_isspace_def)
  have tw_pre: "takeWhile (\<lambda>c. \<not> str_isspace c) (rev pre) = []"
    using pre' by (cases "rev pre") auto
  have "rev raw = rev post @ (rev out @ rev pre)" by (simp add: raw)
  then have dw: "dropWhile str_isspace (rev raw) = dropWhile str_isspace (rev out @ rev pre)"
    using post' by (simp add: dropWhile_append2 del: set_rev)
  have goal: "last (split_char CHR '' '' out) = last_whitespace_token raw"
  proof (cases "out = []")
    case True
    have "dropWhile str_isspace (rev pre) = []" using pre' by simp
    with True dw have e: "dropWhile str_isspace (rev raw) = []" by simp
    show ?thesis unfolding last_whitespace_token_def e using True by simp
  next
    case False
    have "\<not> bytes_isspace (last out)" using strip_last [of bytes_isspace raw] False
      unfolding out_def by simp
    then have "last out \<noteq> CHR '' ''" by (auto simp: bytes_isspace_def)
    with only' False have nl: "\<not> str_isspace (last out)" by auto
    have "rev out \<noteq> []" using False by simp
    then obtain l r where lr: "rev out = l # r" by (cases "rev out") auto
    then have "l = last out" using False by (metis hd_rev list.sel(1))
    with nl have "\<not> str_isspace l" by simp
    then have "dropWhile str_isspace ((l # r) @ rev pre) = (l # r) @ rev pre" by simp
    then have dw': "dropWhile str_isspace (rev raw) = rev out @ rev pre"
      unfolding dw lr .
    show ?thesis
    proof (cases "CHR '' '' \<in> set out")
      case False
      with only' have nows: "\<forall>x\<in>set (rev out). \<not> str_isspace x" by auto
      have "takeWhile (\<lambda>c. \<not> str_isspace c) (rev out @ rev pre) = rev out"
        using nows tw_pre by (simp add: takeWhile_append2 del: set_rev)
      then have "last_whitespace_token raw = out"
        by (simp add: last_whitespace_token_def dw')
      with False show ?thesis by (simp add: split_char_none)
    next
      case True
      from split_list_last [OF True] obtain p t where
        pt: "out = p @ CHR '' '' # t" and t: "CHR '' '' \<notin> set t" by blast
      have tn: "\<forall>x\<in>set (rev t). \<not> str_isspace x"
      proof
        fix x assume "x \<in> set (rev t)"
        then have "x \<in> set out" and "x \<noteq> CHR '' ''" using pt t by auto
        with only' show "\<not> str_isspace x" by auto
      qed
      have sp: "str_isspace CHR '' ''" by (simp add: str_isspace_def bytes_isspace_def)
      have "rev out @ rev pre = rev t @ (CHR '' '' # rev p @ rev pre)" by (simp add: pt)
      then have "takeWhile (\<lambda>c. \<not> str_isspace c) (rev out @ rev pre) = rev t"
        using tn sp by (simp add: takeWhile_append2 del: set_rev)
      then have "last_whitespace_token raw = t"
        by (simp add: last_whitespace_token_def dw')
      moreover have "last (split_char CHR '' '' out) = t"
        unfolding pt using t by (rule split_char_last)
      ultimately show ?thesis by simp
    qed
  qed
  then show ?thesis unfolding out_def .
qed

subsection \<open>Parsing the job identifier\<close>

text \<open>
  Claim C9, as amended. \<^verbatim>\<open>start\<close> takes as job identifier the last field of the stripped
  output of the submit command when that output is split at every single space character
  (not at white space in general), and keeps it to the end; this field is the last token
  delimited by white space whenever the stripped output holds no white space but spaces.
  Whether the identifier passes
  the numeric check changes nothing but the log: the outcome of \<^verbatim>\<open>start\<close> and its final
  state without the log are the ones of a run in which the check succeeds. When the check
  fails, the line about the end of the output of \<^verbatim>\<open>sbatch\<close> is logged, and for a non-empty
  identifier the next external process is the state query with that identifier.
\<close>

theorem start_job_identifier:
  assumes sub: "start_submit sh int_ok port s = Inr s1"
  shows "(\<exists>script. calls s1 = calls s @ [Invocation ''sbatch'' script]
            \<and> slurm_job_id s1 = Some (last (split_char CHR '' ''
                 (strip bytes_isspace (sh (calls s) (Invocation ''sbatch'' script)))))
            \<and> ((\<forall>ch\<in>set (strip bytes_isspace (sh (calls s) (Invocation ''sbatch'' script))).
                    str_isspace ch \<longrightarrow> ch = CHR '' '')
                 \<longrightarrow> slurm_job_id s1
                       = Some (last_whitespace_token (sh (calls s) (Invocation ''sbatch'' script)))))
     \<and> slurm_job_id (snd (start sh int_ok port s)) = slurm_job_id s1
     \<and> fst (start sh int_ok port s) = fst (start sh (\<lambda>j. True) port s)
     \<and> unlogged (snd (start sh int_ok port s)) = unlogged (snd (start sh (\<lambda>j. True) port s))
     \<and> (\<forall>j. slurm_job_id s1 = Some j \<and> \<not> int_ok j \<longrightarrow>
           Info (''sbatch returned this at the end of their string: '' @ j)
             \<in> set (logged (snd (start sh int_ok port s))))
     \<and> (\<forall>j. slurm_job_id s1 = Some j \<and> j \<noteq> [] \<longrightarrow>
           (\<exists>rest. calls (snd (start sh int_ok port s)) = calls s1 @ state_query j # rest))"
proof -
  have lg1: "\<forall>j. slurm_job_id s1 = Some j \<and> \<not> int_ok j \<longrightarrow>
           Info (''sbatch returned this at the end of their string: '' @ j) \<in> set (logged s1)"
    using sub
    by (auto simp: start_submit_def Let_def log_info_def
        split: option.splits sum.splits prod.splits if_splits)
  from start_log_grows [OF sub] obtain more where
    "logged (snd (start sh int_ok port s)) = logged s1 @ more" by blast
  with lg1 have lg: "\<forall>j. slurm_job_id s1 = Some j \<and> \<not> int_ok j \<longrightarrow>
           Info (''sbatch returned this at the end of their string: '' @ j)
             \<in> set (logged (snd (start sh int_ok port s)))"
    by simp
  from start_submit_facts [OF sub] obtain script where
    c: "calls s1 = calls s @ [Invocation ''sbatch'' script]"
    and j: "slurm_job_id s1 = Some (last (split_char CHR '' ''
                 (strip bytes_isspace (sh (calls s) (Invocation ''sbatch'' script)))))"
    by blast
  have w: "(\<forall>ch\<in>set (strip bytes_isspace (sh (calls s) (Invocation ''sbatch'' script))).
                    str_isspace ch \<longrightarrow> ch = CHR '' '')
       \<longrightarrow> slurm_job_id s1
             = Some (last_whitespace_token (sh (calls s) (Invocation ''sbatch'' script)))"
    using j last_token_spaces [of "sh (calls s) (Invocation ''sbatch'' script)"] by simp
  from c j w have first: "\<exists>script. calls s1 = calls s @ [Invocation ''sbatch'' script]
            \<and> slurm_job_id s1 = Some (last (split_char CHR '' ''
                 (strip bytes_isspace (sh (calls s) (Invocation ''sbatch'' script)))))
            \<and> ((\<forall>ch\<in>set (strip bytes_isspace (sh (calls s) (Invocation ''sbatch'' script))).
                    str_isspace ch \<longrightarrow> ch = CHR '' '')
                 \<longrightarrow> slurm_job_id s1
                       = Some (last_whitespace_token (sh (calls s) (Invocation ''sbatch'' script))))"
    by blast
  from first start_keeps [OF sub] start_int_ok_unlogged [of sh int_ok port s] lg
  show ?thesis by blast
qed

theorem start_job_identifier_witness:
  "slurm_job_id (snd (start stub_tab digits 8888 alice)) = Some (''job'' @ [CHR 0x09] @ ''209'')
   \<and> fst (start stub_tab digits 8888 alice) = fst (start stub_tab (\<lambda>j. True) 8888 alice)
   \<and> unlogged (snd (start stub_tab digits 8888 alice))
       = unlogged (snd (start stub_tab (\<lambda>j. True) 8888 alice))
   \<and> command (calls (snd (start stub_tab digits 8888 alice)) ! 1)
       = ''squeue -h -j job'' @ [CHR 0x09] @ ''209 -o %T''
   \<and> Info (''sbatch returned this at the end of their string: job'' @ [CHR 0x09] @ ''209'')
       \<in> set (logged (snd (start stub_tab digits 8888 alice)))
   \<and> slurm_job_id (snd (start stub_running4 digits 8888 alice))
       = Some (last_whitespace_token ''Submitted batch job 209\<newline>'')
   \<and> last_whitespace_token ''Submitted batch job 209\<newline>'' = ''209''"
proof -
  have tok: "env alice ''JPY_API_TOKEN'' = Some ''tok''" by (simp add: alice_def)
  from start_submit_ok [OF tok] obtain s1 where
    sub: "start_submit stub_tab digits 8888 alice = Inr s1" by blast
  from start_job_identifier [OF sub] obtain script where
    c1: "calls s1 = calls alice @ [Invocation ''sbatch'' script]"
    and j1: "slurm_job_id s1 = Some (last (split_char CHR '' ''
                 (strip bytes_isspace (stub_tab (calls alice) (Invocation ''sbatch'' script)))))"
    by blast
  have id: "slurm_job_id s1 = Some (''job'' @ [CHR 0x09] @ ''209'')"
    unfolding j1 by (simp add: stub_tab_def strip_def bytes_isspace_def)
  have ne: "''job'' @ [CHR 0x09] @ ''209'' \<noteq> []" by simp
  from start_job_identifier [OF sub] id ne obtain rest where
    "calls (snd (start stub_tab digits 8888 alice))
       = calls s1 @ state_query (''job'' @ [CHR 0x09] @ ''209'') # rest" by blast
  then have q: "command (calls (snd (start stub_tab digits 8888 alice)) ! 1)
       = ''squeue -h -j job'' @ [CHR 0x09] @ ''209 -o %T''"
    unfolding c1 by (simp add: alice_def state_query_def)
  from start_submit_ok [OF tok] obtain s2 where
    sub2: "start_submit stub_running4 digits 8888 alice = Inr s2" by blast
  have sp: "\<forall>ch\<in>set ''Submitted batch job 209''. str_isspace ch \<longrightarrow> ch = CHR '' ''"
    by (simp add: str_isspace_def bytes_isspace_def)
  from start_job_identifier [OF sub2] obtain script2 where
    "(\<forall>ch\<in>set (strip bytes_isspace (stub_running4 (calls alice) (Invocation ''sbatch'' script2))).
         str_isspace ch \<longrightarrow> ch = CHR '' '')
       \<longrightarrow> slurm_job_id s2
             = Some (last_whitespace_token (stub_running4 (calls alice) (Invocation ''sbatch'' script2)))"
    and k: "slurm_job_id (snd (start stub_running4 digits 8888 alice)) = slurm_job_id s2"
    by blast
  with sp have "slurm_job_id s2 = Some (last_whitespace_token ''Submitted batch job 209\<newline>'')"
    by (simp add: stub_running4_def strip_eval)
  with k have r: "slurm_job_id (snd (start stub_running4 digits 8888 alice))
       = Some (last_whitespace_token ''Submitted batch job 209\<newline>'')" by simp
  have l: "last_whitespace_token ''Submitted batch job 209\<newline>'' = ''209''"
    by (simp add: last_whitespace_token_def str_isspace_def bytes_isspace_def)
  have nd: "\<not> digits (''job'' @ [CHR 0x09] @ ''209'')" by simp
  from start_job_identifier [OF sub] id nd
  have lg: "Info (''sbatch returned this at the end of their string: job'' @ [CHR 0x09] @ ''209'')
       \<in> set (logged (snd (start stub_tab digits 8888 alice)))"
    by simp
  from start_job_identifier [OF sub] id q r l lg show ?thesis by simp
qed

text \<open>The claim as stated fails: for a submit output whose last separator is a tab, the
  identifier that \<^verbatim>\<open>start\<close> stores is not the last token delimited by white space.\<close>

theorem start_job_identifier_counterexample:
  "slurm_job_id (snd (start stub_tab digits 8888 alice)) = Some (''job'' @ [CHR 0x09] @ ''209'')
   \<and> stub_tab [] (Invocation ''sbatch'' []) = ''Submitted batch job'' @ [CHR 0x09] @ ''209'' @ [CHR 0x0A]
   \<and> last_whitespace_token (''Submitted batch job'' @ [CHR 0x09] @ ''209'' @ [CHR 0x0A]) = ''209''
   \<and> ''job'' @ [CHR 0x09] @ ''209'' \<noteq> ''209''"
proof -
  have tok: "env alice ''JPY_API_TOKEN'' = Some ''tok''" by (simp add: alice_def)
  from start_submit_ok [OF tok] obtain s1 where
    sub: "start_submit stub_tab digits 8888 alice = Inr s1" by blast
  from start_submit_facts [OF sub] obtain script where
    j1: "slurm_job_id s1 = Some (last (split_char CHR '' ''
                 (strip bytes_isspace (stub_tab (calls alice) (Invocation ''sbatch'' script)))))"
    by blast
  have id: "slurm_job_id s1 = Some (''job'' @ [CHR 0x09] @ ''209'')"
    unfolding j1 by (simp add: stub_tab_def strip_def bytes_isspace_def)
  have a: "slurm_job_id (snd (start stub_tab digits 8888 alice)) = Some (''job'' @ [CHR 0x09] @ ''209'')"
    using start_keeps(1) [OF sub] id by simp
  have b: "stub_tab [] (Invocation ''sbatch'' []) = ''Submitted batch job'' @ [CHR 0x09] @ ''209'' @ [CHR 0x0A]"
    by (simp add: stub_tab_def)
  have c: "last_whitespace_token (''Submitted batch job'' @ [CHR 0x09] @ ''209'' @ [CHR 0x0A]) = ''209''"
    by (simp add: last_whitespace_token_def str_isspace_def bytes_isspace_def)
  from a b c show ?thesis by simp
qed

subsection \<open>stop with the exceptions of the external commands\<close>











subsection \<open>On decodable output the two models of stop agree\<close>









end
